theory Spec2Isabelle
  imports Complex_Main
begin

section \<open>Statistics engine\<close>

text \<open>
  The statistics module of the evaluation runner (\<^verbatim>\<open>statistics.ts\<close>).  JavaScript numbers are
  modelled as real numbers; \<^verbatim>\<open>reduce\<close> over an array is \<^const>\<open>foldl\<close> over the list.
  The record fields \<^verbatim>\<open>min\<close> and \<^verbatim>\<open>max\<close> of the source are called \<open>min_v\<close> and
  \<open>max_v\<close>, since \<^const>\<open>min\<close> and \<^const>\<open>max\<close> are taken.
\<close>

record ConsistencyMetrics =
  mean :: real
  stdDev :: real
  coefficientOfVariation :: real
  min_v :: real
  max_v :: real
  variance :: real

definition calculateConsistencyMetrics :: "real list \<Rightarrow> ConsistencyMetrics" where
  "calculateConsistencyMetrics scores =
     (if length scores = 0 then
        \<lparr>mean = 0, stdDev = 0, coefficientOfVariation = 0, min_v = 0, max_v = 0, variance = 0\<rparr>
      else
        let mean = foldl (\<lambda>sum score. sum + score) 0 scores / real (length scores) in
        if length scores = 1 then
          \<lparr>mean = mean, stdDev = 0, coefficientOfVariation = 0,
           min_v = scores ! 0, max_v = scores ! 0, variance = 0\<rparr>
        else
          let variance = foldl (\<lambda>sum score. sum + (score - mean)\<^sup>2) 0 scores
                           / real (length scores - 1);
              stdDev = sqrt variance;
              coefficientOfVariation = (if mean \<noteq> 0 then stdDev / mean else 0)
          in \<lparr>mean = mean, stdDev = stdDev, coefficientOfVariation = coefficientOfVariation,
              min_v = Min (set scores), max_v = Max (set scores), variance = variance\<rparr>)"

definition calculateConsistencyScore :: "real \<Rightarrow> real" where
  "calculateConsistencyScore cv =
     (let score = 100 * exp (- 3 * cv)
      in max 0 (min 100 score))"

definition calculateAverageConsistencyScore :: "real list \<Rightarrow> real" where
  "calculateAverageConsistencyScore responses =
     (if length responses = 0 then 0
      else let consistencyScores = map calculateConsistencyScore responses
           in foldl (\<lambda>sum score. sum + score) 0 consistencyScores
                / real (length consistencyScores))"

text \<open>
  \<^verbatim>\<open>Math.random()\<close> is modelled as a stream \<open>rnd\<close> of draws together with the number of
  draws consumed so far, which every function that draws returns updated.  The language
  guarantees a draw in \<open>[0, 1)\<close>; \<open>random_ok\<close> states this contract.  Under it the index
  \<open>\<lfloor>rnd k * length array\<rfloor>\<close> read by \<open>resampleWithReplacement\<close> is within the array.
\<close>

definition random_ok :: "(nat \<Rightarrow> real) \<Rightarrow> bool" where
  "random_ok rnd = (\<forall>k. 0 \<le> rnd k \<and> rnd k < 1)"

text \<open>Reading a JavaScript array at an integer index: \<open>None\<close> is \<^verbatim>\<open>undefined\<close>.\<close>

definition js_index :: "'a list \<Rightarrow> int \<Rightarrow> 'a option" where
  "js_index xs i = (if 0 \<le> i \<and> i < int (length xs) then Some (xs ! nat i) else None)"

text \<open>The loop of \<open>resampleWithReplacement\<close>: \<open>n\<close> iterations are left, \<open>k\<close> draws are consumed.\<close>

fun resampleLoop :: "(nat \<Rightarrow> real) \<Rightarrow> 'a list \<Rightarrow> nat \<Rightarrow> nat \<Rightarrow> 'a list \<times> nat" where
  "resampleLoop rnd array 0 k = ([], k)"
| "resampleLoop rnd array (Suc n) k =
     (let randomIndex = nat \<lfloor>rnd k * real (length array)\<rfloor>;
          (rest, k') = resampleLoop rnd array n (Suc k)
      in (array ! randomIndex # rest, k'))"

definition resampleWithReplacement :: "(nat \<Rightarrow> real) \<Rightarrow> nat \<Rightarrow> 'a list \<Rightarrow> 'a list \<times> nat" where
  "resampleWithReplacement rnd k array = resampleLoop rnd array (length array) k"

text \<open>The resampling loop of \<open>calculateBootstrapCI\<close>, with \<open>n\<close> iterations left.\<close>

fun bootstrapLoop :: "(nat \<Rightarrow> real) \<Rightarrow> real list \<Rightarrow> nat \<Rightarrow> nat \<Rightarrow> real list \<times> nat" where
  "bootstrapLoop rnd scores 0 k = ([], k)"
| "bootstrapLoop rnd scores (Suc n) k =
     (let (resample, k1) = resampleWithReplacement rnd k scores;
          resampleMean = foldl (\<lambda>sum val. sum + val) 0 resample / real (length resample);
          (rest, k2) = bootstrapLoop rnd scores n k1
      in (resampleMean # rest, k2))"

definition lowerIndex :: "nat \<Rightarrow> real \<Rightarrow> int" where
  "lowerIndex len confidenceLevel = (let alpha = 1 - confidenceLevel in \<lfloor>real len * (alpha / 2)\<rfloor>)"

definition upperIndex :: "nat \<Rightarrow> real \<Rightarrow> int" where
  "upperIndex len confidenceLevel = (let alpha = 1 - confidenceLevel in \<lfloor>real len * (1 - alpha / 2)\<rfloor>)"

text \<open>
  The interval's bounds are read from an array and may be \<^verbatim>\<open>undefined\<close>, hence options.
  The second component of the result is the number of random draws consumed.
\<close>

record ConfidenceInterval =
  lower :: "real option"
  upper :: "real option"
  ci_mean :: real

definition calculateBootstrapCI ::
  "(nat \<Rightarrow> real) \<Rightarrow> nat \<Rightarrow> real list \<Rightarrow> real \<Rightarrow> nat \<Rightarrow> ConfidenceInterval \<times> nat" where
  "calculateBootstrapCI rnd k scores confidenceLevel iterations =
     (if length scores = 0 then (\<lparr>lower = Some 0, upper = Some 0, ci_mean = 0\<rparr>, k)
      else if length scores = 1 then
        (\<lparr>lower = Some (scores ! 0), upper = Some (scores ! 0), ci_mean = scores ! 0\<rparr>, k)
      else
        let (means, k') = bootstrapLoop rnd scores iterations k;
            bootstrapMeans = sort means;
            mean = foldl (\<lambda>sum score. sum + score) 0 scores / real (length scores)
        in (\<lparr>lower = js_index bootstrapMeans (lowerIndex (length bootstrapMeans) confidenceLevel),
             upper = js_index bootstrapMeans (upperIndex (length bootstrapMeans) confidenceLevel),
             ci_mean = mean\<rparr>, k'))"

text \<open>The default arguments of \<open>calculateBootstrapCI\<close>: confidence level 0.95, 10000 iterations.\<close>

definition defaultConfidenceLevel :: real where
  "defaultConfidenceLevel = 0.95"

definition defaultIterations :: nat where
  "defaultIterations = 10000"

section \<open>Generation client\<close>

text \<open>
  \<open>OpenRouterClient.generate\<close> (\<^verbatim>\<open>openrouter.ts\<close>).  The network is the environment: \<open>fetch\<close>
  gives, for the attempt number, what the request of that attempt comes back with.  The
  function returns its result together with the trace of its effects, the requests issued
  and the delays waited for, in order.  A thrown error is \<open>Inl\<close>.
\<close>

record OpenRouterMessage =
  role :: string
  content :: string

record Payload =
  model :: string
  messages :: "OpenRouterMessage list"
  max_tokens :: nat
  temperature :: real
  seed :: "real option"

text \<open>
  What one \<^verbatim>\<open>fetch\<close> and the decoding of its body come back with, as far as the code looks:
  the request is rejected (network failure, or the timeout signal aborts it); the response
  is not \<^verbatim>\<open>ok\<close>; the body is not JSON; or the body is JSON, of which the code reads
  \<^verbatim>\<open>choices\<close> (\<open>None\<close> when absent) and the \<^verbatim>\<open>message.content\<close> of each choice (\<open>None\<close> when
  it is not a string, so that calling \<^verbatim>\<open>trim\<close> on it throws).
\<close>

datatype fetch_outcome =
    FetchRejected string
  | ResponseNotOk nat string
  | BodyNotJson
  | BodyJson "string option list option"

datatype request_error =
    FetchError string
  | ApiError nat string
  | JsonError
  | UnexpectedFormat
  | ContentTypeError

datatype generation_error =
    FailedAfter nat request_error
  | RequestFailed

datatype event = Fetch Payload | Sleep nat

definition js_whitespace :: "char \<Rightarrow> bool" where
  "js_whitespace c = (c \<in> set [CHR 0x09, CHR 0x0A, CHR 0x0B, CHR 0x0C, CHR 0x0D, CHR '' ''])"

definition trim :: "string \<Rightarrow> string" where
  "trim s = rev (dropWhile js_whitespace (rev (dropWhile js_whitespace s)))"

text \<open>The body of the \<^verbatim>\<open>try\<close> block, after the request has come back.\<close>

definition readResponse :: "fetch_outcome \<Rightarrow> request_error + string" where
  "readResponse outcome =
     (case outcome of
        FetchRejected e \<Rightarrow> Inl (FetchError e)
      | ResponseNotOk status errorText \<Rightarrow> Inl (ApiError status errorText)
      | BodyNotJson \<Rightarrow> Inl JsonError
      | BodyJson None \<Rightarrow> Inl UnexpectedFormat
      | BodyJson (Some []) \<Rightarrow> Inl UnexpectedFormat
      | BodyJson (Some (None # _)) \<Rightarrow> Inl ContentTypeError
      | BodyJson (Some (Some text # _)) \<Rightarrow> Inr (trim text))"

definition maxRetries :: nat where
  "maxRetries = 3"

definition retryDelay :: nat where
  "retryDelay = 2000"

function generateLoop ::
  "(nat \<Rightarrow> fetch_outcome) \<Rightarrow> Payload \<Rightarrow> nat \<Rightarrow> (generation_error + string) \<times> event list" where
  "generateLoop fetch payload attempt =
     (if attempt < maxRetries then
        (case readResponse (fetch attempt) of
           Inr text \<Rightarrow> (Inr text, [Fetch payload])
         | Inl error \<Rightarrow>
             if attempt < maxRetries - 1 then
               let delay = retryDelay * (attempt + 1);
                   (result, events) = generateLoop fetch payload (attempt + 1)
               in (result, Fetch payload # Sleep delay # events)
             else (Inl (FailedAfter maxRetries error), [Fetch payload]))
      else (Inl RequestFailed, []))"
  by pat_completeness auto
termination
  by (relation "measure (\<lambda>(fetch, payload, attempt). maxRetries - attempt)") auto

declare generateLoop.simps [simp del]

definition buildPayload ::
  "string \<Rightarrow> string \<Rightarrow> nat \<Rightarrow> real \<Rightarrow> string option \<Rightarrow> real option \<Rightarrow> Payload" where
  "buildPayload modelName prompt maxTokens temp systemMessage sd =
     (let messages0 = (case systemMessage of
                         None \<Rightarrow> []
                       | Some m \<Rightarrow> if m = [] then [] else [\<lparr>role = ''system'', content = m\<rparr>]);
          messages1 = messages0 @ [\<lparr>role = ''user'', content = prompt\<rparr>]
      in \<lparr>model = modelName, messages = messages1, max_tokens = maxTokens,
          temperature = temp, seed = sd\<rparr>)"

definition generate ::
  "(nat \<Rightarrow> fetch_outcome) \<Rightarrow> string \<Rightarrow> string \<Rightarrow> nat \<Rightarrow> real \<Rightarrow> string option \<Rightarrow> real option
     \<Rightarrow> (generation_error + string) \<times> event list" where
  "generate fetch modelName prompt maxTokens temp systemMessage sd =
     generateLoop fetch (buildPayload modelName prompt maxTokens temp systemMessage sd) 0"

definition isFetch :: "event \<Rightarrow> bool" where
  "isFetch e = (case e of Fetch _ \<Rightarrow> True | Sleep _ \<Rightarrow> False)"

section \<open>Judge\<close>

text \<open>
  \<open>LLMJudge.parseJudgment\<close> (\<^verbatim>\<open>judge.ts\<close>).  Strings are lists of characters; positions and
  lengths count characters.
\<close>

subsection \<open>String operations of the platform\<close>

text \<open>The first position at which \<open>pat\<close> occurs in \<open>s\<close>, if any.\<close>

fun find_first :: "string \<Rightarrow> string \<Rightarrow> nat option" where
  "find_first pat [] = (if pat = [] then Some 0 else None)"
| "find_first pat (x # xs) =
     (if take (length pat) (x # xs) = pat then Some 0 else map_option Suc (find_first pat xs))"

text \<open>\<^verbatim>\<open>s.indexOf(pat, from)\<close>: the start position is clamped to the string; \<open>-1\<close> when absent.\<close>

definition indexOf :: "string \<Rightarrow> string \<Rightarrow> int \<Rightarrow> int" where
  "indexOf s pat from =
     (let start = nat (max 0 (min from (int (length s))))
      in case find_first pat (drop start s) of
           None \<Rightarrow> - 1
         | Some i \<Rightarrow> int (start + i))"

definition includes_str :: "string \<Rightarrow> string \<Rightarrow> bool" where
  "includes_str s pat = (indexOf s pat 0 \<noteq> - 1)"

text \<open>
  \<^verbatim>\<open>s.substring(a, b)\<close>: both ends are clamped to \<open>[0, length s]\<close> and swapped when
  \<open>a > b\<close>.
\<close>

definition substring :: "string \<Rightarrow> int \<Rightarrow> int \<Rightarrow> string" where
  "substring s a b =
     (let a' = nat (max 0 (min a (int (length s))));
          b' = nat (max 0 (min b (int (length s))));
          from = min a' b';
          to = max a' b'
      in take (to - from) (drop from s))"

subsection \<open>Values and numbers\<close>

text \<open>
  A JavaScript number is a real or \<^verbatim>\<open>NaN\<close>.  A value is what \<^verbatim>\<open>JSON.parse\<close> can return,
  or \<^verbatim>\<open>undefined\<close> (the value of an absent property).  The result of \<open>parseJudgment\<close> is
  typed by an unchecked cast, so its fields hold arbitrary values.
\<close>

datatype js_number = Finite real | NaN

datatype js_value =
    JUndefined
  | JNull
  | JBool bool
  | JNumber js_number
  | JString string
  | JArray "js_value list"
  | JObject "(string \<times> js_value) list"

datatype js_error = SyntaxError | TypeError

text \<open>Reading a property: it throws on \<^verbatim>\<open>null\<close> and \<^verbatim>\<open>undefined\<close> only.\<close>

definition get_property :: "js_value \<Rightarrow> string \<Rightarrow> js_error + js_value" where
  "get_property v name =
     (case v of
        JUndefined \<Rightarrow> Inl TypeError
      | JNull \<Rightarrow> Inl TypeError
      | JObject props \<Rightarrow> Inr (case map_of props name of None \<Rightarrow> JUndefined | Some x \<Rightarrow> x)
      | _ \<Rightarrow> Inr JUndefined)"

definition is_digit :: "char \<Rightarrow> bool" where
  "is_digit c = ((of_char CHR ''0'' :: nat) \<le> of_char c \<and> (of_char c :: nat) \<le> of_char CHR ''9'')"

definition digit_value :: "char \<Rightarrow> nat" where
  "digit_value c = (of_char c :: nat) - of_char CHR ''0''"

text \<open>The value of a string of digits as integer part, and as fractional part.\<close>

definition int_part :: "string \<Rightarrow> real" where
  "int_part ds = foldl (\<lambda>acc d. acc * 10 + real (digit_value d)) 0 ds"

definition frac_part :: "string \<Rightarrow> real" where
  "frac_part ds = foldr (\<lambda>d acc. (real (digit_value d) + acc) / 10) ds 0"

text \<open>
  \<^verbatim>\<open>parseFloat\<close> on the longest prefix of the form \<^verbatim>\<open>digits\<close> or \<^verbatim>\<open>digits.digits\<close>, which is
  the form of every text the score patterns capture; \<^verbatim>\<open>NaN\<close> when the text does not start
  with a digit.  Signs, exponents, a leading dot and \<^verbatim>\<open>Infinity\<close> are not modelled.
\<close>

definition parseFloat :: "string \<Rightarrow> js_number" where
  "parseFloat s =
     (let ip = takeWhile is_digit s;
          rest = dropWhile is_digit s
      in if ip = [] then NaN
         else case rest of
                c # fs \<Rightarrow> if c = CHR ''.'' then Finite (int_part ip + frac_part (takeWhile is_digit fs))
                          else Finite (int_part ip)
              | [] \<Rightarrow> Finite (int_part ip))"

subsection \<open>Regular expressions\<close>

text \<open>
  The fragment of JavaScript regular expressions that the four score patterns use, all
  under the flag \<^verbatim>\<open>i\<close>: literal characters (matched ignoring case), \<^verbatim>\<open>\d\<close>, \<^verbatim>\<open>\s\<close>,
  character classes, sequence, alternation, the greedy quantifiers \<^verbatim>\<open>+\<close>, \<^verbatim>\<open>*\<close>, \<^verbatim>\<open>?\<close>
  and one capturing group.
\<close>

datatype atom = AChar char | ADigit | ASpace

datatype regex =
    Atom atom
  | Cls "atom list"
  | Seq regex regex
  | Alt regex regex
  | Plus regex
  | Star regex
  | Opt regex
  | Group regex

definition to_lower :: "char \<Rightarrow> char" where
  "to_lower c =
     (if (of_char CHR ''A'' :: nat) \<le> of_char c \<and> (of_char c :: nat) \<le> of_char CHR ''Z''
      then char_of ((of_char c :: nat) + 32) else c)"

fun atom_matches :: "atom \<Rightarrow> char \<Rightarrow> bool" where
  "atom_matches (AChar a) c = (to_lower a = to_lower c)"
| "atom_matches ADigit c = is_digit c"
| "atom_matches ASpace c = js_whitespace c"

text \<open>
  A matcher state is the input still to be read and the text captured by the group so far.
  A matcher returns the states it can reach, in the order in which backtracking tries
  them.  \<open>star_iter\<close> is the greedy iteration: one more round first, then stopping; a round
  that consumes nothing is not taken.  The fuel is the length of the input, which bounds
  the number of rounds.
\<close>

type_synonym mstate = "string \<times> string option"

fun star_iter :: "(mstate \<Rightarrow> mstate list) \<Rightarrow> nat \<Rightarrow> mstate \<Rightarrow> mstate list" where
  "star_iter m 0 st = [st]"
| "star_iter m (Suc n) st =
     concat (map (star_iter m n) (filter (\<lambda>st'. length (fst st') < length (fst st)) (m st))) @ [st]"

primrec rmatch :: "regex \<Rightarrow> mstate \<Rightarrow> mstate list" where
  "rmatch (Atom a) =
     (\<lambda>st. case fst st of [] \<Rightarrow> [] | c # cs \<Rightarrow> if atom_matches a c then [(cs, snd st)] else [])"
| "rmatch (Cls as) =
     (\<lambda>st. case fst st of [] \<Rightarrow> []
          | c # cs \<Rightarrow> if \<exists>a \<in> set as. atom_matches a c then [(cs, snd st)] else [])"
| "rmatch (Seq r1 r2) = (\<lambda>st. concat (map (rmatch r2) (rmatch r1 st)))"
| "rmatch (Alt r1 r2) = (\<lambda>st. rmatch r1 st @ rmatch r2 st)"
| "rmatch (Plus r) = (\<lambda>st. concat (map (\<lambda>st'. star_iter (rmatch r) (length (fst st')) st') (rmatch r st)))"
| "rmatch (Star r) = (\<lambda>st. star_iter (rmatch r) (length (fst st)) st)"
| "rmatch (Opt r) = (\<lambda>st. rmatch r st @ [st])"
| "rmatch (Group r) =
     (\<lambda>st. map (\<lambda>st'. (fst st', Some (take (length (fst st) - length (fst st')) (fst st))))
               (rmatch r st))"

text \<open>
  \<^verbatim>\<open>text.match(pattern)\<close> for a pattern without the flag \<^verbatim>\<open>g\<close>: the leftmost start position
  with a match, and there the first match in backtracking order.  The result is \<open>None\<close>
  for \<^verbatim>\<open>null\<close>, and otherwise the text of group 1 (\<open>None\<close> when the group did not take part).
\<close>

fun js_match :: "string \<Rightarrow> regex \<Rightarrow> string option option" where
  "js_match [] r = (case rmatch r ([], None) of [] \<Rightarrow> None | st # _ \<Rightarrow> Some (snd st))"
| "js_match (c # cs) r =
     (case rmatch r (c # cs, None) of [] \<Rightarrow> js_match cs r | st # _ \<Rightarrow> Some (snd st))"

definition lit :: "string \<Rightarrow> regex" where
  "lit s = foldr (\<lambda>c r. Seq (Atom (AChar c)) r) (butlast s) (Atom (AChar (last s)))"

definition number_group :: regex where
  "number_group = Group (Seq (Plus (Atom ADigit)) (Opt (Seq (Atom (AChar CHR ''.'')) (Plus (Atom ADigit)))))"

definition out_of_or_slash :: regex where
  "out_of_or_slash = Alt (lit ''out of'') (Atom (AChar CHR ''/''))"

definition scorePatterns :: "regex list" where
  "scorePatterns =
     [ Seq (lit ''final'') (Seq (Cls [AChar CHR ''_'', ASpace]) (Seq (lit ''score'')
         (Seq (Plus (Cls [AChar CHR '':'', ASpace])) number_group))),
       Seq (lit ''score'') (Seq (Plus (Cls [AChar CHR '':'', ASpace])) (Seq number_group
         (Seq (Star (Atom ASpace)) out_of_or_slash))),
       Seq number_group (Seq (Star (Atom ASpace)) (Seq out_of_or_slash
         (Seq (Star (Atom ASpace)) (Plus (Atom ADigit))))),
       Seq (lit ''receive'') (Seq (Opt (Atom (AChar CHR ''s''))) (Seq (Plus (Atom ASpace))
         (Seq number_group (Seq (Plus (Atom ASpace)) (lit ''points'')))))
     ]"

subsection \<open>The parser\<close>

record RubricCriterion =
  name :: string
  weight :: real
  required :: bool

record Rubric =
  max_score :: real
  criteria :: "RubricCriterion list"

record JudgmentResult =
  score :: js_value
  max_score_jr :: real
  reasoning :: js_value
  criteria_scores :: js_value

definition fence_json :: string where
  "fence_json = [CHR 0x60, CHR 0x60, CHR 0x60] @ ''json''"

definition fence :: string where
  "fence = [CHR 0x60, CHR 0x60, CHR 0x60]"

text \<open>The text handed to \<^verbatim>\<open>JSON.parse\<close>: the contents of a fenced block if there is one.\<close>

definition extractJson :: "string \<Rightarrow> string" where
  "extractJson judgmentText =
     (if includes_str judgmentText fence_json then
        let jsonStart = indexOf judgmentText fence_json 0 + 7;
            jsonEnd = indexOf judgmentText fence jsonStart
        in trim (substring judgmentText jsonStart jsonEnd)
      else if includes_str judgmentText fence then
        let jsonStart = indexOf judgmentText fence 0 + 3;
            jsonEnd = indexOf judgmentText fence jsonStart
        in trim (substring judgmentText jsonStart jsonEnd)
      else judgmentText)"

text \<open>
  The \<^verbatim>\<open>try\<close> block.  \<^verbatim>\<open>JSON.parse\<close> belongs to the platform and is a parameter: \<open>None\<close>
  is its \<^verbatim>\<open>SyntaxError\<close>.
\<close>

definition tryParse :: "(string \<Rightarrow> js_value option) \<Rightarrow> string \<Rightarrow> Rubric \<Rightarrow> js_error + JudgmentResult" where
  "tryParse JSON_parse judgmentText rubric =
     (case JSON_parse (extractJson judgmentText) of
        None \<Rightarrow> Inl SyntaxError
      | Some judgment \<Rightarrow>
          (case get_property judgment ''final_score'' of
             Inl e \<Rightarrow> Inl e
           | Inr final_score \<Rightarrow>
          (case get_property judgment ''overall_reasoning'' of
             Inl e \<Rightarrow> Inl e
           | Inr overall_reasoning \<Rightarrow>
          (case get_property judgment ''criteria_evaluations'' of
             Inl e \<Rightarrow> Inl e
           | Inr criteria_evaluations \<Rightarrow>
               Inr \<lparr>score = final_score, max_score_jr = max_score rubric,
                    reasoning = overall_reasoning, criteria_scores = criteria_evaluations\<rparr>))))"

text \<open>The loop over the patterns in the \<^verbatim>\<open>catch\<close> block, started with \<open>extractedScore = 0\<close>.\<close>

fun extractScore :: "regex list \<Rightarrow> string \<Rightarrow> js_number" where
  "extractScore [] judgmentText = Finite 0"
| "extractScore (pattern # patterns) judgmentText =
     (case js_match judgmentText pattern of
        None \<Rightarrow> extractScore patterns judgmentText
      | Some None \<Rightarrow> NaN
      | Some (Some group1) \<Rightarrow> parseFloat group1)"



subsection \<open>Notions used in the statements\<close>



section \<open>Evaluation runner\<close>

text \<open>
  \<open>EvalRunner.runEvaluation\<close> (\<^verbatim>\<open>runner.ts\<close>).  The database is a record of tables, each a
  list of rows in insertion order; the generation client, the judge, the clock, the random
  source and the order in which concurrent trials settle are the environment.  The
  functions pass the state explicitly and return an error as \<open>Inl\<close> together with the state
  reached.  Fields that several objects of the source share are prefixed by the object.
\<close>

subsection \<open>Questions, trials and rows\<close>

datatype variant = Explicit | Implicit

definition variant_name :: "variant \<Rightarrow> string" where
  "variant_name v = (case v of Explicit \<Rightarrow> ''explicit'' | Implicit \<Rightarrow> ''implicit'')"

datatype run_status = Running | Completed | Failed

datatype eval_error =
    RunNotFound nat
  | RunAlreadyCompleted nat
  | GenerationError string
  | JudgeError string
  | JsTypeError

record Question =
  question_id :: string
  pillar_id :: nat
  truth_hierarchy :: nat
  question_weight :: real
  explicit_text :: string
  implicit_text :: string
  reference_answer :: "string option"
  rubric_explicit :: Rubric
  rubric_implicit :: Rubric

definition getRubricForVariant :: "Question \<Rightarrow> variant \<Rightarrow> Rubric" where
  "getRubricForVariant question v =
     (case v of Explicit \<Rightarrow> rubric_explicit question | Implicit \<Rightarrow> rubric_implicit question)"

text \<open>The arguments of one call of the generation client, and what the judge returns.\<close>

record GenerateArgs =
  arg_prompt :: string
  arg_maxTokens :: nat
  arg_temperature :: real
  arg_systemMessage :: "string option"
  arg_seed :: "real option"

record GradeResult =
  grade_score :: real
  grade_max_score :: real
  grade_reasoning :: string

record TrialRun =
  responseText :: string
  trial_score :: real
  maxScore :: real
  judgeReasoning :: string

text \<open>A call is identified by the question, the variant and the number of the trial.\<close>

type_synonym call_id = "string \<times> variant \<times> nat"

datatype call =
    GenerateCall call_id GenerateArgs
  | GradeCall call_id string string Rubric "string option"

record ModelConfig =
  config_name :: string
  config_version :: string
  config_provider :: string

record ModelRow =
  model_id :: nat
  model_name :: string
  model_version :: string
  model_provider :: string

record EvaluationRunRow =
  er_id :: nat
  er_modelId :: nat
  er_startedAt :: "real option"
  er_completedAt :: "real option"
  er_status :: run_status
  er_currentQuestion :: nat
  er_totalQuestions :: nat
  er_currentQuestionId :: "string option"
  er_currentVariant :: "variant option"
  er_responsesCompleted :: "nat option"
  er_averageScore :: "real option"
  er_estimatedTimeRemaining :: "int option"

record ResponseRow =
  resp_id :: nat
  resp_evaluationRunId :: nat
  resp_questionId :: string
  resp_modelId :: nat
  resp_questionVariant :: variant
  resp_responseText :: string
  resp_runCount :: nat
  resp_meanScore :: real
  resp_stdDev :: real
  resp_minScore :: real
  resp_maxScore :: real
  resp_coefficientOfVariation :: real
  resp_judgeReasoning :: string

record ResponseRunRow =
  rr_responseId :: nat
  rr_runNumber :: nat
  rr_responseText :: string
  rr_score :: real
  rr_maxScore :: real
  rr_judgeReasoning :: string

record PillarScoreRow =
  ps_evaluationRunId :: nat
  ps_modelId :: nat
  ps_pillarId :: nat
  ps_avgScore :: real
  ps_avgScoreCiLower :: real
  ps_avgScoreCiUpper :: real
  ps_sampleVariance :: real
  ps_questionCount :: nat

record ModelScoreRow =
  ms_modelId :: nat
  ms_evaluationRunId :: nat
  ms_overallScore :: real
  ms_overallScoreCiLower :: real
  ms_overallScoreCiUpper :: real
  ms_weightedScore :: real
  ms_weightedScoreCiLower :: real
  ms_weightedScoreCiUpper :: real
  ms_scoreVariance :: real
  ms_consistencyScore :: real
  ms_totalQuestions :: nat

record Database =
  models :: "ModelRow list"
  evaluationRuns :: "EvaluationRunRow list"
  responses :: "ResponseRow list"
  responseRuns :: "ResponseRunRow list"
  pillarScores :: "PillarScoreRow list"
  modelScores :: "ModelScoreRow list"

record EvaluationProgress =
  prog_evaluationRunId :: nat
  prog_modelId :: nat
  prog_status :: run_status
  prog_currentQuestion :: nat
  prog_totalQuestions :: nat
  prog_currentQuestionId :: "string option"
  prog_currentVariant :: "variant option"
  prog_totalRuns :: nat
  prog_responsesCompleted :: nat
  prog_averageScore :: real
  prog_startedAt :: real
  prog_estimatedTimeRemaining :: int

record EvaluationResult =
  eval_run_id :: nat
  result_model_id :: nat
  overall_score :: real
  overall_score_ci :: "real \<times> real"
  weighted_score :: real
  weighted_score_ci :: "real \<times> real"
  consistency_score :: real
  total_responses :: nat

record ResponseStat =
  mean_score :: real
  stat_max_score :: real
  stat_pillar_id :: nat
  stat_cv :: real

subsection \<open>Environment and state\<close>

text \<open>
  The environment: the generation client under test and the judge, each answering a call;
  for each question and variant, the trials that settle first, in their order (the others
  settle after them); the clock read at the start and after each completed pair (indexed
  by the number of pairs completed); and the stream of \<^verbatim>\<open>Math.random\<close>.
\<close>

record Env =
  testModel :: "call_id \<Rightarrow> GenerateArgs \<Rightarrow> eval_error + string"
  judge :: "call_id \<Rightarrow> string \<Rightarrow> string \<Rightarrow> Rubric \<Rightarrow> string option \<Rightarrow> eval_error + GradeResult"
  settle_first :: "string \<times> variant \<Rightarrow> nat list"
  start_now :: real
  date_now :: "nat \<Rightarrow> real"
  math_random :: "nat \<Rightarrow> real"

text \<open>
  The state: the database, the calls made to client and judge (grouped by trial; the
  interleaving of concurrent trials is not recorded), the progress reports handed to the
  callback, and the number of random draws consumed.
\<close>

record RunnerState =
  db :: Database
  calls :: "call list"
  progress :: "EvaluationProgress list"
  draws :: nat

text \<open>The local variables of \<open>runEvaluation\<close> that its loop reads and updates.\<close>

record RunVars =
  modelId :: nat
  evalRunId :: nat
  completedVariants :: nat
  startTime :: real
  completedPairs :: "string set"
  allResponseStats :: "ResponseStat list"

text \<open>
  \<^verbatim>\<open>x.toFixed(digits)\<close> as the number its result denotes: the multiple of \<open>10\<^sup>-\<^sup>d\<close> nearest
  to \<open>x\<close>, the larger one on a tie.  A numeric column holds that number, and
  \<^verbatim>\<open>parseFloat\<close> of the column gives it back.  \<^verbatim>\<open>Math.round\<close> rounds half up.
\<close>

definition toFixed :: "nat \<Rightarrow> real \<Rightarrow> real" where
  "toFixed digits x = real_of_int \<lfloor>x * 10 ^ digits + 1 / 2\<rfloor> / 10 ^ digits"

definition math_round :: "real \<Rightarrow> int" where
  "math_round x = \<lfloor>x + 1 / 2\<rfloor>"

text \<open>A fresh identifier for a row that the database inserts.\<close>

definition fresh_id :: "nat list \<Rightarrow> nat" where
  "fresh_id ids = (if ids = [] then 0 else Suc (Max (set ids)))"

subsection \<open>Trials of one question and variant\<close>

definition trialArgs :: "string \<Rightarrow> nat \<Rightarrow> GenerateArgs" where
  "trialArgs questionText idx =
     (let runNum = idx + 1;
          isDeterministicRun = (runNum = 1);
          temperature = (if isDeterministicRun then 0.0 else 0.7);
          seed = (if isDeterministicRun then Some 0 else None)
      in \<lparr>arg_prompt = questionText, arg_maxTokens = 2000, arg_temperature = temperature,
          arg_systemMessage = None, arg_seed = seed\<rparr>)"

text \<open>One trial: the outcome of the task, and the calls it makes.\<close>

definition runTrial ::
  "Env \<Rightarrow> Question \<Rightarrow> variant \<Rightarrow> string \<Rightarrow> Rubric \<Rightarrow> nat \<Rightarrow> (eval_error + TrialRun) \<times> call list" where
  "runTrial env question v questionText rubric idx =
     (let runNum = idx + 1;
          cid = (question_id question, v, runNum);
          args = trialArgs questionText idx
      in case testModel env cid args of
           Inl e \<Rightarrow> (Inl e, [GenerateCall cid args])
         | Inr text \<Rightarrow>
             (case judge env cid questionText text rubric (reference_answer question) of
                Inl e \<Rightarrow>
                  (Inl e, [GenerateCall cid args,
                           GradeCall cid questionText text rubric (reference_answer question)])
              | Inr judgment \<Rightarrow>
                  (Inr \<lparr>responseText = text, trial_score = grade_score judgment,
                        maxScore = grade_max_score judgment,
                        judgeReasoning = grade_reasoning judgment\<rparr>,
                   [GenerateCall cid args,
                    GradeCall cid questionText text rubric (reference_answer question)])))"

text \<open>
  \<^verbatim>\<open>Promise.all\<close>: the tasks settle in the order \<open>order\<close>; a settled value is stored in the slot
  of its task, and the first task that settles with an error rejects the whole.  When all
  have settled the slots are the result, in task order.
\<close>

fun promiseAll ::
  "nat list \<Rightarrow> (nat \<Rightarrow> eval_error + 'a) \<Rightarrow> 'a option list \<Rightarrow> eval_error + 'a option list" where
  "promiseAll [] outcome slots = Inr slots"
| "promiseAll (i # order) outcome slots =
     (case outcome i of
        Inl e \<Rightarrow> Inl e
      | Inr x \<Rightarrow> promiseAll order outcome (slots[i := Some x]))"

text \<open>
  The order in which \<open>n\<close> tasks settle: those the environment names first (each a task
  number below \<open>n\<close>, counted once), then the remaining ones by number.
\<close>

definition settleOrder :: "nat list \<Rightarrow> nat \<Rightarrow> nat list" where
  "settleOrder first n =
     (let named = remdups (filter (\<lambda>i. i < n) first)
      in named @ filter (\<lambda>i. i \<notin> set named) [0..<n])"

definition runTrials ::
  "Env \<Rightarrow> nat \<Rightarrow> Question \<Rightarrow> variant \<Rightarrow> string \<Rightarrow> Rubric \<Rightarrow> (eval_error + TrialRun list) \<times> call list" where
  "runTrials env runsPerQuestion question v questionText rubric =
     (let tasks = map (runTrial env question v questionText rubric) [0..<runsPerQuestion];
          order = settleOrder (settle_first env (question_id question, v)) runsPerQuestion;
          made = concat (map snd tasks)
      in case promiseAll order (\<lambda>i. fst (tasks ! i)) (replicate runsPerQuestion None) of
           Inl e \<Rightarrow> (Inl e, made)
         | Inr slots \<Rightarrow> (Inr (map the slots), made))"

subsection \<open>One question and variant\<close>

definition variantKey :: "string \<Rightarrow> variant \<Rightarrow> string" where
  "variantKey qid v = qid @ '':'' @ variant_name v"

definition currentScore :: "ResponseStat list \<Rightarrow> real" where
  "currentScore stats =
     foldl (\<lambda>sum r. sum + mean_score r) 0 stats / foldl (\<lambda>sum r. sum + stat_max_score r) 0 stats"

definition updateRun :: "nat \<Rightarrow> (EvaluationRunRow \<Rightarrow> EvaluationRunRow) \<Rightarrow> Database \<Rightarrow> Database" where
  "updateRun rid f d =
     d\<lparr>evaluationRuns := map (\<lambda>row. if er_id row = rid then f row else row) (evaluationRuns d)\<rparr>"

text \<open>
  The body of the inner loop for a variant that is not skipped.  \<open>nQuestions\<close> is the number of
  questions, \<open>idx\<close> the index of the question.
\<close>

definition processVariant ::
  "Env \<Rightarrow> nat \<Rightarrow> nat \<Rightarrow> nat \<Rightarrow> Question \<Rightarrow> variant \<Rightarrow> RunVars \<times> RunnerState
     \<Rightarrow> (eval_error + RunVars) \<times> RunnerState" where
  "processVariant env runsPerQuestion nQuestions idx question v vs =
     (let vars = fst vs; st = snd vs;
          questionText = (case v of Explicit \<Rightarrow> explicit_text question
                                  | Implicit \<Rightarrow> implicit_text question);
          rubric = getRubricForVariant question v;
          (outcome, made) = runTrials env runsPerQuestion question v questionText rubric;
          st1 = st\<lparr>calls := calls st @ made\<rparr>
      in case outcome of
           Inl e \<Rightarrow> (Inl e, st1)
         | Inr runs \<Rightarrow>
             let scores = map trial_score runs;
                 stats = calculateConsistencyMetrics scores
             in case runs of
                  [] \<Rightarrow> (Inl JsTypeError, st1)
                | run0 # _ \<Rightarrow>
                    let rid = fresh_id (map resp_id (responses (db st1)));
                        response =
                          \<lparr>resp_id = rid, resp_evaluationRunId = evalRunId vars,
                           resp_questionId = question_id question, resp_modelId = modelId vars,
                           resp_questionVariant = v, resp_responseText = responseText run0,
                           resp_runCount = runsPerQuestion,
                           resp_meanScore = toFixed 2 (mean stats),
                           resp_stdDev = toFixed 2 (stdDev stats),
                           resp_minScore = toFixed 2 (min_v stats),
                           resp_maxScore = toFixed 2 (max_v stats),
                           resp_coefficientOfVariation = toFixed 4 (coefficientOfVariation stats),
                           resp_judgeReasoning = judgeReasoning run0\<rparr>;
                        runRows = map (\<lambda>i. \<lparr>rr_responseId = rid, rr_runNumber = i + 1,
                                             rr_responseText = responseText (runs ! i),
                                             rr_score = toFixed 2 (trial_score (runs ! i)),
                                             rr_maxScore = toFixed 2 (maxScore (runs ! i)),
                                             rr_judgeReasoning = judgeReasoning (runs ! i)\<rparr>)
                                      [0..<length runs];
                        stats' = allResponseStats vars @
                                   [\<lparr>mean_score = mean stats, stat_max_score = maxScore run0,
                                     stat_pillar_id = pillar_id question,
                                     stat_cv = coefficientOfVariation stats\<rparr>];
                        completed' = completedVariants vars + 1;
                        elapsedSeconds = (date_now env completed' - startTime vars) / 1000;
                        avgSecondsPerVariant = elapsedSeconds / real completed';
                        remainingVariants = int (nQuestions * 2) - int completed';
                        estimatedTimeRemaining =
                          math_round (avgSecondsPerVariant * real_of_int remainingVariants);
                        averageScorePercent = currentScore stats' * 100;
                        d1 = (db st1)\<lparr>responses := responses (db st1) @ [response],
                                       responseRuns := responseRuns (db st1) @ runRows\<rparr>;
                        d2 = updateRun (evalRunId vars)
                               (\<lambda>row. row\<lparr>er_currentQuestion := idx + 1,
                                           er_currentQuestionId := Some (question_id question),
                                           er_currentVariant := Some v,
                                           er_responsesCompleted := Some completed',
                                           er_averageScore := Some (toFixed 2 averageScorePercent),
                                           er_estimatedTimeRemaining := Some estimatedTimeRemaining\<rparr>)
                               d1;
                        report =
                          \<lparr>prog_evaluationRunId = evalRunId vars, prog_modelId = modelId vars,
                           prog_status = Running, prog_currentQuestion = idx + 1,
                           prog_totalQuestions = nQuestions,
                           prog_currentQuestionId = Some (question_id question),
                           prog_currentVariant = Some v, prog_totalRuns = runsPerQuestion,
                           prog_responsesCompleted = completed',
                           prog_averageScore = averageScorePercent,
                           prog_startedAt = startTime vars,
                           prog_estimatedTimeRemaining = estimatedTimeRemaining\<rparr>
                    in (Inr (vars\<lparr>completedVariants := completed', allResponseStats := stats'\<rparr>),
                        st1\<lparr>db := d2, progress := progress st1 @ [report]\<rparr>))"

text \<open>The inner loop over the two variants, and the outer loop over the questions.\<close>

fun processVariants ::
  "Env \<Rightarrow> nat \<Rightarrow> nat \<Rightarrow> nat \<Rightarrow> Question \<Rightarrow> variant list \<Rightarrow> RunVars \<times> RunnerState
     \<Rightarrow> (eval_error + RunVars) \<times> RunnerState" where
  "processVariants env runsPerQuestion nQuestions idx question [] vs = (Inr (fst vs), snd vs)"
| "processVariants env runsPerQuestion nQuestions idx question (v # rest) vs =
     (if variantKey (question_id question) v \<in> completedPairs (fst vs)
      then processVariants env runsPerQuestion nQuestions idx question rest vs
      else case processVariant env runsPerQuestion nQuestions idx question v vs of
             (Inl e, st) \<Rightarrow> (Inl e, st)
           | (Inr vars, st) \<Rightarrow> processVariants env runsPerQuestion nQuestions idx question rest (vars, st))"

fun processQuestions ::
  "Env \<Rightarrow> nat \<Rightarrow> nat \<Rightarrow> nat \<Rightarrow> Question list \<Rightarrow> RunVars \<times> RunnerState
     \<Rightarrow> (eval_error + RunVars) \<times> RunnerState" where
  "processQuestions env runsPerQuestion nQuestions idx [] vs = (Inr (fst vs), snd vs)"
| "processQuestions env runsPerQuestion nQuestions idx (question # rest) vs =
     (case processVariants env runsPerQuestion nQuestions idx question [Explicit, Implicit] vs of
        (Inl e, st) \<Rightarrow> (Inl e, st)
      | (Inr vars, st) \<Rightarrow> processQuestions env runsPerQuestion nQuestions (idx + 1) rest (vars, st))"

subsection \<open>The whole run\<close>

text \<open>
  \<open>loadPartialEvaluation\<close>: the run and its response rows.  (The source also reads the runs
  of each response into a map that nothing uses afterwards.)
\<close>

definition loadPartialEvaluation ::
  "Database \<Rightarrow> nat \<Rightarrow> eval_error + EvaluationRunRow \<times> ResponseRow list" where
  "loadPartialEvaluation d rid =
     (case filter (\<lambda>row. er_id row = rid) (evaluationRuns d) of
        [] \<Rightarrow> Inl (RunNotFound rid)
      | evalRun # _ \<Rightarrow>
          if er_status evalRun = Completed then Inl (RunAlreadyCompleted rid)
          else Inr (evalRun, filter (\<lambda>r. resp_evaluationRunId r = rid) (responses d)))"

text \<open>
  The statistics of the responses already stored, read back when a run is resumed.  The
  maximal score is that of the first stored run of the response; a response without runs,
  or of a question that is not in the list, makes the read of a property of \<^verbatim>\<open>undefined\<close>
  throw.
\<close>

fun loadStats :: "Database \<Rightarrow> Question list \<Rightarrow> ResponseRow list \<Rightarrow> eval_error + ResponseStat list" where
  "loadStats d questions [] = Inr []"
| "loadStats d questions (response # rest) =
     (case filter (\<lambda>run. rr_responseId run = resp_id response) (responseRuns d) of
        [] \<Rightarrow> Inl JsTypeError
      | run # _ \<Rightarrow>
          (case filter (\<lambda>q. question_id q = resp_questionId response) questions of
             [] \<Rightarrow> Inl JsTypeError
           | q # _ \<Rightarrow>
               (case loadStats d questions rest of
                  Inl e \<Rightarrow> Inl e
                | Inr stats \<Rightarrow>
                    Inr (\<lparr>mean_score = resp_meanScore response, stat_max_score = rr_maxScore run,
                          stat_pillar_id = pillar_id q,
                          stat_cv = resp_coefficientOfVariation response\<rparr> # stats))))"

text \<open>
  The map from pillar to its scores, in order of first insertion: an association list.
\<close>

fun pillarInsert ::
  "nat \<Rightarrow> real \<Rightarrow> real \<Rightarrow> (nat \<times> real list \<times> real list) list \<Rightarrow> (nat \<times> real list \<times> real list) list" where
  "pillarInsert pid s n [] = [(pid, [s], [n])]"
| "pillarInsert pid s n ((p, ss, ns) # rest) =
     (if p = pid then (p, ss @ [s], ns @ [n]) # rest
      else (p, ss, ns) # pillarInsert pid s n rest)"

definition pillarScoreMap :: "ResponseStat list \<Rightarrow> (nat \<times> real list \<times> real list) list" where
  "pillarScoreMap stats =
     foldl (\<lambda>m response.
              pillarInsert (stat_pillar_id response) (mean_score response)
                (mean_score response / stat_max_score response * 100) m)
       [] stats"

fun insertPillarScores ::
  "Env \<Rightarrow> RunVars \<Rightarrow> (nat \<times> real list \<times> real list) list \<Rightarrow> RunnerState
     \<Rightarrow> (eval_error + unit) \<times> RunnerState" where
  "insertPillarScores env vars [] st = (Inr (), st)"
| "insertPillarScores env vars ((pillarId, scores, normalizedScores) # rest) st =
     (let (ci, k) = calculateBootstrapCI (math_random env) (draws st) normalizedScores 0.95
                      defaultIterations;
          v = variance (calculateConsistencyMetrics normalizedScores);
          st1 = st\<lparr>draws := k\<rparr>
      in case (lower ci, upper ci) of
           (Some l, Some u) \<Rightarrow>
             insertPillarScores env vars rest
               (st1\<lparr>db := (db st1)\<lparr>pillarScores := pillarScores (db st1) @
                  [\<lparr>ps_evaluationRunId = evalRunId vars, ps_modelId = modelId vars,
                    ps_pillarId = pillarId, ps_avgScore = toFixed 2 (ci_mean ci),
                    ps_avgScoreCiLower = toFixed 2 l, ps_avgScoreCiUpper = toFixed 2 u,
                    ps_sampleVariance = toFixed 2 v,
                    ps_questionCount = length normalizedScores\<rparr>]\<rparr>\<rparr>)
         | _ \<Rightarrow> (Inl JsTypeError, st1))"

text \<open>Steps 5 and 6: the aggregate scores, and the run marked as completed.\<close>

definition finishRun ::
  "Env \<Rightarrow> nat \<Rightarrow> nat \<Rightarrow> RunVars \<Rightarrow> RunnerState \<Rightarrow> (eval_error + EvaluationResult) \<times> RunnerState" where
  "finishRun env runsPerQuestion nQuestions vars st =
     (case insertPillarScores env vars (pillarScoreMap (allResponseStats vars)) st of
        (Inl e, st1) \<Rightarrow> (Inl e, st1)
      | (Inr _, st1) \<Rightarrow>
          let normalizedScores =
                map (\<lambda>r. mean_score r / stat_max_score r * 100) (allResponseStats vars);
              (overallCI, k) = calculateBootstrapCI (math_random env) (draws st1) normalizedScores
                                 0.95 defaultIterations;
              overallScore = ci_mean overallCI;
              consistencyScore =
                calculateAverageConsistencyScore (map stat_cv (allResponseStats vars));
              scoreVariance = variance (calculateConsistencyMetrics normalizedScores);
              weightedScore = overallScore;
              st2 = st1\<lparr>draws := k\<rparr>
          in case (lower overallCI, upper overallCI) of
               (Some l, Some u) \<Rightarrow>
                 let d1 = (db st2)\<lparr>modelScores := modelScores (db st2) @
                            [\<lparr>ms_modelId = modelId vars, ms_evaluationRunId = evalRunId vars,
                              ms_overallScore = toFixed 2 overallScore,
                              ms_overallScoreCiLower = toFixed 2 l,
                              ms_overallScoreCiUpper = toFixed 2 u,
                              ms_weightedScore = toFixed 2 weightedScore,
                              ms_weightedScoreCiLower = toFixed 2 l,
                              ms_weightedScoreCiUpper = toFixed 2 u,
                              ms_scoreVariance = toFixed 2 scoreVariance,
                              ms_consistencyScore = toFixed 2 consistencyScore,
                              ms_totalQuestions = length (allResponseStats vars)\<rparr>]\<rparr>;
                     d2 = updateRun (evalRunId vars)
                            (\<lambda>row. row\<lparr>er_status := Completed,
                                        er_completedAt := Some (date_now env (completedVariants vars))\<rparr>)
                            d1;
                     report =
                       \<lparr>prog_evaluationRunId = evalRunId vars, prog_modelId = modelId vars,
                        prog_status = Completed, prog_currentQuestion = nQuestions,
                        prog_totalQuestions = nQuestions, prog_currentQuestionId = None,
                        prog_currentVariant = None, prog_totalRuns = runsPerQuestion,
                        prog_responsesCompleted = length (allResponseStats vars),
                        prog_averageScore = overallScore, prog_startedAt = startTime vars,
                        prog_estimatedTimeRemaining = 0\<rparr>
                 in (Inr \<lparr>eval_run_id = evalRunId vars, result_model_id = modelId vars,
                          overall_score = overallScore, overall_score_ci = (l, u),
                          weighted_score = weightedScore, weighted_score_ci = (l, u),
                          consistency_score = consistencyScore,
                          total_responses = length (allResponseStats vars)\<rparr>,
                     st2\<lparr>db := d2, progress := progress st2 @ [report]\<rparr>)
             | _ \<Rightarrow> (Inl JsTypeError, st2))"

text \<open>
  The start of a run: either the state of the run to resume, or a new run (and a new model
  row when the model is not known yet).
\<close>

definition startRun ::
  "Env \<Rightarrow> ModelConfig \<Rightarrow> Question list \<Rightarrow> nat option \<Rightarrow> RunnerState
     \<Rightarrow> (eval_error + RunVars) \<times> RunnerState" where
  "startRun env config questions resumeEvalRunId st =
     (case resumeEvalRunId of
        Some rid \<Rightarrow>
          (case loadPartialEvaluation (db st) rid of
             Inl e \<Rightarrow> (Inl e, st)
           | Inr (evalRun, completedResponses) \<Rightarrow>
               (case loadStats (db st) questions completedResponses of
                  Inl e \<Rightarrow> (Inl e, st)
                | Inr stats \<Rightarrow>
                    (Inr \<lparr>modelId = er_modelId evalRun, evalRunId = rid,
                          completedVariants =
                            (case er_responsesCompleted evalRun of None \<Rightarrow> 0 | Some n \<Rightarrow> n),
                          startTime =
                            (case er_startedAt evalRun of None \<Rightarrow> start_now env | Some t \<Rightarrow> t),
                          completedPairs =
                            set (map (\<lambda>response. variantKey (resp_questionId response)
                                                  (resp_questionVariant response))
                                   completedResponses),
                          allResponseStats = stats\<rparr>,
                     st)))
      | None \<Rightarrow>
          let (mid, d1) =
                (case filter (\<lambda>m. model_name m = config_name config) (models (db st)) of
                   existingModel # _ \<Rightarrow> (model_id existingModel, db st)
                 | [] \<Rightarrow>
                     let newId = fresh_id (map model_id (models (db st)))
                     in (newId,
                         (db st)\<lparr>models := models (db st) @
                            [\<lparr>model_id = newId, model_name = config_name config,
                              model_version = config_version config,
                              model_provider = config_provider config\<rparr>]\<rparr>));
              rid = fresh_id (map er_id (evaluationRuns d1));
              d2 = d1\<lparr>evaluationRuns := evaluationRuns d1 @
                     [\<lparr>er_id = rid, er_modelId = mid, er_startedAt = Some (start_now env),
                       er_completedAt = None, er_status = Running, er_currentQuestion = 0,
                       er_totalQuestions = length questions, er_currentQuestionId = None,
                       er_currentVariant = None, er_responsesCompleted = Some 0,
                       er_averageScore = None, er_estimatedTimeRemaining = None\<rparr>]\<rparr>
          in (Inr \<lparr>modelId = mid, evalRunId = rid, completedVariants = 0,
                   startTime = start_now env, completedPairs = {}, allResponseStats = []\<rparr>,
              st\<lparr>db := d2\<rparr>))"

definition runEvaluation ::
  "Env \<Rightarrow> ModelConfig \<Rightarrow> nat \<Rightarrow> Question list \<Rightarrow> nat option \<Rightarrow> RunnerState
     \<Rightarrow> (eval_error + EvaluationResult) \<times> RunnerState" where
  "runEvaluation env config runsPerQuestion questions resumeEvalRunId st =
     (case startRun env config questions resumeEvalRunId st of
        (Inl e, st1) \<Rightarrow> (Inl e, st1)
      | (Inr vars, st1) \<Rightarrow>
          (case processQuestions env runsPerQuestion (length questions) 0 questions (vars, st1) of
             (Inl e, st2) \<Rightarrow> (Inl e, st2)
           | (Inr vars', st2) \<Rightarrow> finishRun env runsPerQuestion (length questions) vars' st2))"

subsection \<open>Notions used in the statements\<close>

text \<open>The text of a variant of a question.\<close>

definition questionTextOf :: "Question \<Rightarrow> variant \<Rightarrow> string" where
  "questionTextOf question v =
     (case v of Explicit \<Rightarrow> explicit_text question | Implicit \<Rightarrow> implicit_text question)"

text \<open>The outcome of trial \<open>idx + 1\<close> of a pair, and the runs of its first \<open>n\<close> trials in trial order.\<close>

definition trialOutcome :: "Env \<Rightarrow> Question \<Rightarrow> variant \<Rightarrow> nat \<Rightarrow> eval_error + TrialRun" where
  "trialOutcome env question v idx =
     fst (runTrial env question v (questionTextOf question v) (getRubricForVariant question v) idx)"

definition trialRuns :: "Env \<Rightarrow> nat \<Rightarrow> Question \<Rightarrow> variant \<Rightarrow> TrialRun list" where
  "trialRuns env n question v = map (\<lambda>i. projr (trialOutcome env question v i)) [0..<n]"

text \<open>The statistics of a pair that enter the running average.\<close>

definition pairStat :: "Question \<Rightarrow> TrialRun list \<Rightarrow> ResponseStat" where
  "pairStat question runs =
     \<lparr>mean_score = mean (calculateConsistencyMetrics (map trial_score runs)),
      stat_max_score = maxScore (hd runs),
      stat_pillar_id = pillar_id question,
      stat_cv = coefficientOfVariation (calculateConsistencyMetrics (map trial_score runs))\<rparr>"

definition isGenerateCall :: "call \<Rightarrow> bool" where
  "isGenerateCall c = (case c of GenerateCall _ _ \<Rightarrow> True | GradeCall _ _ _ _ _ \<Rightarrow> False)"

text \<open>The key of the pair for which a call is made.\<close>

definition callKey :: "call \<Rightarrow> string" where
  "callKey c =
     (case c of
        GenerateCall cid _ \<Rightarrow> variantKey (fst cid) (fst (snd cid))
      | GradeCall cid _ _ _ _ \<Rightarrow> variantKey (fst cid) (fst (snd cid)))"

text \<open>The pairs of a question list in the order of the loops, and the rows of a run.\<close>

definition allPairs :: "Question list \<Rightarrow> (Question \<times> variant) list" where
  "allPairs questions = concat (map (\<lambda>q. [(q, Explicit), (q, Implicit)]) questions)"

definition pairKey :: "Question \<times> variant \<Rightarrow> string" where
  "pairKey p = variantKey (question_id (fst p)) (snd p)"

definition runRowsOf :: "nat \<Rightarrow> Database \<Rightarrow> EvaluationRunRow list" where
  "runRowsOf rid d = filter (\<lambda>row. er_id row = rid) (evaluationRuns d)"

text \<open>The keys of the pairs for which a response of the run is stored.\<close>

definition storedKeys :: "nat \<Rightarrow> Database \<Rightarrow> string set" where
  "storedKeys rid d =
     set (map (\<lambda>response. variantKey (resp_questionId response) (resp_questionVariant response))
            (filter (\<lambda>r. resp_evaluationRunId r = rid) (responses d)))"

text \<open>
  The two nested loops as one loop over the pairs, each with the index of its question;
  \<open>processQuestions_flat\<close> below shows that they agree.
\<close>

fun indexedPairs :: "nat \<Rightarrow> Question list \<Rightarrow> (nat \<times> Question \<times> variant) list" where
  "indexedPairs idx [] = []"
| "indexedPairs idx (q # qs) = (idx, q, Explicit) # (idx, q, Implicit) # indexedPairs (idx + 1) qs"

fun processPairs ::
  "Env \<Rightarrow> nat \<Rightarrow> nat \<Rightarrow> (nat \<times> Question \<times> variant) list \<Rightarrow> RunVars \<times> RunnerState
     \<Rightarrow> (eval_error + RunVars) \<times> RunnerState" where
  "processPairs env runsPerQuestion nQuestions [] vs = (Inr (fst vs), snd vs)"
| "processPairs env runsPerQuestion nQuestions (p # rest) vs =
     (if variantKey (question_id (fst (snd p))) (snd (snd p)) \<in> completedPairs (fst vs)
      then processPairs env runsPerQuestion nQuestions rest vs
      else case processVariant env runsPerQuestion nQuestions (fst p) (fst (snd p)) (snd (snd p)) vs of
             (Inl e, st) \<Rightarrow> (Inl e, st)
           | (Inr vars, st) \<Rightarrow> processPairs env runsPerQuestion nQuestions rest (vars, st))"

text \<open>The pairs that a run with the given completed keys still has to process.\<close>

definition pendingPairs :: "string set \<Rightarrow> Question list \<Rightarrow> (Question \<times> variant) list" where
  "pendingPairs done questions = filter (\<lambda>p. pairKey p \<notin> done) (allPairs questions)"

text \<open>The run row agrees with the loop's counter.\<close>

definition counterSynced :: "RunVars \<Rightarrow> RunnerState \<Rightarrow> bool" where
  "counterSynced vars st =
     list_all (\<lambda>row. er_responsesCompleted row = Some (completedVariants vars))
       (runRowsOf (evalRunId vars) (db st))"

subsection \<open>Example data\<close>

text \<open>
  A question, an environment in which every call succeeds, and a database in which run 7
  has stored the response of the explicit variant of the question.
\<close>

definition exampleRubric :: Rubric where
  "exampleRubric = \<lparr>max_score = 100, criteria = []\<rparr>"

definition exampleQuestion :: Question where
  "exampleQuestion =
     \<lparr>question_id = ''q1'', pillar_id = 1, truth_hierarchy = 1, question_weight = 1,
      explicit_text = ''E'', implicit_text = ''I'', reference_answer = None,
      rubric_explicit = exampleRubric, rubric_implicit = exampleRubric\<rparr>"

definition exampleEnv :: Env where
  "exampleEnv =
     \<lparr>testModel = (\<lambda>cid args. Inr ''answer''),
      judge = (\<lambda>cid questionText text rubric reference.
                 Inr \<lparr>grade_score = 40, grade_max_score = 50, grade_reasoning = ''fair''\<rparr>),
      settle_first = (\<lambda>key. []),
      start_now = 0, date_now = (\<lambda>k. 0), math_random = (\<lambda>k. 0)\<rparr>"

definition exampleConfig :: ModelConfig where
  "exampleConfig = \<lparr>config_name = ''m'', config_version = ''1'', config_provider = ''p''\<rparr>"

definition exampleRun :: "run_status \<Rightarrow> EvaluationRunRow" where
  "exampleRun status =
     \<lparr>er_id = 7, er_modelId = 3, er_startedAt = Some 0, er_completedAt = None,
      er_status = status, er_currentQuestion = 1, er_totalQuestions = 1,
      er_currentQuestionId = Some ''q1'', er_currentVariant = Some Explicit,
      er_responsesCompleted = Some 1, er_averageScore = Some 85,
      er_estimatedTimeRemaining = Some 0\<rparr>"

definition exampleState :: "run_status \<Rightarrow> RunnerState" where
  "exampleState status =
     \<lparr>db = \<lparr>models = [\<lparr>model_id = 3, model_name = ''m'', model_version = ''1'',
                         model_provider = ''p''\<rparr>],
             evaluationRuns = [exampleRun status],
             responses = [\<lparr>resp_id = 0, resp_evaluationRunId = 7, resp_questionId = ''q1'',
                            resp_modelId = 3, resp_questionVariant = Explicit,
                            resp_responseText = ''answer'', resp_runCount = 1,
                            resp_meanScore = 85, resp_stdDev = 0, resp_minScore = 85,
                            resp_maxScore = 85, resp_coefficientOfVariation = 0,
                            resp_judgeReasoning = ''good''\<rparr>],
             responseRuns = [\<lparr>rr_responseId = 0, rr_runNumber = 1, rr_responseText = ''answer'',
                               rr_score = 85, rr_maxScore = 100, rr_judgeReasoning = ''good''\<rparr>],
             pillarScores = [], modelScores = []\<rparr>,
      calls = [], progress = [], draws = 0\<rparr>"

definition exampleVars :: RunVars where
  "exampleVars =
     \<lparr>modelId = 3, evalRunId = 7, completedVariants = 1, startTime = 0,
      completedPairs = {variantKey ''q1'' Explicit},
      allResponseStats = [\<lparr>mean_score = 85, stat_max_score = 100, stat_pillar_id = 1,
                            stat_cv = 0\<rparr>]\<rparr>"

text \<open>The running average agrees with the statistics collected so far.\<close>

definition averageSynced :: "RunVars \<Rightarrow> RunnerState \<Rightarrow> bool" where
  "averageSynced vars st =
     list_all (\<lambda>row. er_averageScore row = Some (toFixed 2 (currentScore (allResponseStats vars) * 100)))
       (runRowsOf (evalRunId vars) (db st))"

section \<open>Rate limiter\<close>

text \<open>
  \<open>RateLimiter.throttle\<close> (\<^verbatim>\<open>rate-limiter.ts\<close>).  The function is asynchronous: a call runs
  without interruption up to its \<^verbatim>\<open>await\<close> of a timer, and its continuation runs, again
  without interruption, when the timer has fired.  Calls of several callers interleave at
  these points only.  The model therefore has two atomic steps, the call up to the
  suspension (or to its end when it does not wait) and the continuation, and a state that
  holds what the steps share:
  \<^item> the store of arrays, addressed by their position: \<^verbatim>\<open>filter\<close> allocates a new array, and
    a suspended call keeps the address of the array it allocated;
  \<^item> the map \<open>requestHistory\<close> from provider key to the address of an array;
  \<^item> the suspended calls, each with its provider, the address it holds and the time at
    which its timer is due;
  \<^item> the log of the invocations of \<^verbatim>\<open>fn\<close>, each with its provider and the time it started.
  Times are in milliseconds.  Both readings of \<^verbatim>\<open>Date.now()\<close> within one step give the time
  of the step.
\<close>

record LimiterState =
  arrays :: "real list list"
  requestHistory :: "string \<rightharpoonup> nat"
  suspended :: "(string \<times> nat \<times> real) list"
  invoked :: "(string \<times> real) list"
  clock :: real

definition initialLimiter :: LimiterState where
  "initialLimiter =
     \<lparr>arrays = [], requestHistory = Map.empty, suspended = [], invoked = [], clock = 0\<rparr>"

text \<open>\<^verbatim>\<open>recentRequests.push(...)\<close> on the array at \<open>addr\<close>, followed by the invocation of \<^verbatim>\<open>fn\<close>.\<close>

definition recordAndInvoke :: "string \<Rightarrow> nat \<Rightarrow> real \<Rightarrow> LimiterState \<Rightarrow> LimiterState" where
  "recordAndInvoke provider addr now st =
     st\<lparr>arrays := (arrays st)[addr := arrays st ! addr @ [now]],
        invoked := invoked st @ [(provider, now)]\<rparr>"

text \<open>A call of \<open>throttle\<close> at time \<open>now\<close>, up to its suspension or its end.\<close>

definition throttle :: "string \<Rightarrow> real \<Rightarrow> real \<Rightarrow> LimiterState \<Rightarrow> LimiterState" where
  "throttle provider limitRPM now st =
     (if limitRPM \<le> 0 then st\<lparr>invoked := invoked st @ [(provider, now)]\<rparr>
      else
        let st1 = (case requestHistory st provider of
                     Some a \<Rightarrow> st
                   | None \<Rightarrow> st\<lparr>arrays := arrays st @ [[]],
                                requestHistory := (requestHistory st)(provider \<mapsto> length (arrays st))\<rparr>);
            history = (case requestHistory st1 provider of
                         Some a \<Rightarrow> arrays st1 ! a
                       | None \<Rightarrow> []);
            windowMs = 60 * 1000;
            minSpacingMs = windowMs / limitRPM;
            cutoff = now - windowMs;
            recentRequests = filter (\<lambda>timestamp. timestamp > cutoff) history;
            addr = length (arrays st1);
            st2 = st1\<lparr>arrays := arrays st1 @ [recentRequests],
                      requestHistory := (requestHistory st1)(provider \<mapsto> addr)\<rparr>
        in if real (length recentRequests) \<ge> limitRPM then
             let oldestRequest = recentRequests ! 0;
                 waitTime = oldestRequest + windowMs - now
             in if waitTime > 0
                then st2\<lparr>suspended := suspended st2 @ [(provider, addr, now + waitTime)]\<rparr>
                else recordAndInvoke provider addr now st2
           else if length recentRequests > 0 then
             let lastRequest = recentRequests ! (length recentRequests - 1);
                 timeSinceLastRequest = now - lastRequest;
                 waitTime = minSpacingMs - timeSinceLastRequest
             in if waitTime > 0
                then st2\<lparr>suspended := suspended st2 @ [(provider, addr, now + waitTime)]\<rparr>
                else recordAndInvoke provider addr now st2
           else recordAndInvoke provider addr now st2)"

text \<open>
  The continuation of the suspended call number \<open>i\<close>, at a time \<open>now\<close> at which its timer is
  due: \<open>None\<close> when there is no such call or its timer is not due yet.
\<close>

definition resume :: "nat \<Rightarrow> real \<Rightarrow> LimiterState \<Rightarrow> LimiterState option" where
  "resume i now st =
     (if i < length (suspended st) then
        (case suspended st ! i of
           (provider, addr, due) \<Rightarrow>
             if due \<le> now
             then Some (recordAndInvoke provider addr now
                          (st\<lparr>suspended := take i (suspended st) @ drop (Suc i) (suspended st)\<rparr>))
             else None)
      else None)"

text \<open>
  A schedule is a list of timed steps: a caller calls \<open>throttle\<close>, or the timer of a
  suspended call fires.  Time does not go back.
\<close>

datatype limiter_step = Call string real | TimerFires nat

fun runSchedule :: "(real \<times> limiter_step) list \<Rightarrow> LimiterState \<Rightarrow> LimiterState option" where
  "runSchedule [] st = Some st"
| "runSchedule ((t, step) # rest) st =
     (if t < clock st then None
      else case step of
             Call provider limitRPM \<Rightarrow>
               runSchedule rest ((throttle provider limitRPM t st)\<lparr>clock := t\<rparr>)
           | TimerFires i \<Rightarrow>
               (case resume i t (st\<lparr>clock := t\<rparr>) of
                  None \<Rightarrow> None
                | Some st' \<Rightarrow> runSchedule rest st'))"

text \<open>
  The number of invocations for a provider that started in the window of 60 seconds ending
  at \<open>t\<close>, and the times of its invocations.
\<close>

definition startsInWindow :: "string \<Rightarrow> real \<Rightarrow> LimiterState \<Rightarrow> nat" where
  "startsInWindow provider t st =
     length (filter (\<lambda>e. fst e = provider \<and> t - 60000 < snd e \<and> snd e \<le> t) (invoked st))"

definition startTimes :: "string \<Rightarrow> LimiterState \<Rightarrow> real list" where
  "startTimes provider st = map snd (filter (\<lambda>e. fst e = provider) (invoked st))"

text \<open>
  Seven callers call at time 0, as the trials of one pair do with seven runs per question;
  the timers of the six that wait fire at time 12000.
\<close>

definition burstSchedule :: "(real \<times> limiter_step) list" where
  "burstSchedule =
     replicate 7 (0, Call ''magisterium'' 5) @ replicate 6 (12000, TimerFires 0)"

text \<open>
  Three callers call at time 0 and three more at time 20000, as the trials of two
  consecutive pairs do with three runs per question.
\<close>

definition pairsSchedule :: "(real \<times> limiter_step) list" where
  "pairsSchedule =
     replicate 3 (0, Call ''magisterium'' 5) @ replicate 2 (12000, TimerFires 0)
     @ replicate 3 (20000, Call ''magisterium'' 5) @ replicate 3 (24000, TimerFires 0)"

section \<open>Statistics engine: proofs\<close>

lemma foldl_add_sum: "foldl (\<lambda>sum score. sum + score) a xs = a + sum_list xs" for a :: real
  by (induction xs arbitrary: a) auto

lemma foldl_sq_sum:
  "foldl (\<lambda>sum score. sum + (score - m)\<^sup>2) a xs = a + (\<Sum>x\<leftarrow>xs. (x - m)\<^sup>2)" for a :: real
  by (induction xs arbitrary: a) auto

lemma exp_neg_3_17_bounds: "0.83818 < exp (- (3/17) :: real) \<and> exp (- (3/17) :: real) < 0.83835"
proof -
  obtain t :: real where t: "\<bar>t\<bar> \<le> \<bar>- (3/17)\<bar>"
    and e: "exp (- (3/17)) = (\<Sum>m<4. ((- (3/17)) ^ m) / fact m) + (exp t / fact 4) * (- (3/17)) ^ 4"
    using Maclaurin_exp_le [of "- (3/17)" 4] by blast
  have "t \<le> 1" using t by simp
  then have "exp t \<le> exp 1" by simp
  also have "\<dots> \<le> 3" using exp_le by simp
  finally have et: "exp t \<le> 3" .
  have s: "(\<Sum>m<4. ((- (3/17::real)) ^ m) / fact m) = 1 - 3/17 + (3/17)^2/2 - (3/17)^3/6"
    by (simp add: lessThan_nat_numeral lessThan_Suc fact_numeral power3_eq_cube power2_eq_square)
  have c: "(0::real) < (- (3/17)) ^ 4 / fact 4" by (simp add: fact_numeral)
  have r0: "0 < (exp t / fact 4) * (- (3/17::real)) ^ 4"
    by (simp add: fact_numeral)
  have "exp t * ((- (3/17::real)) ^ 4 / fact 4) \<le> 3 * ((- (3/17)) ^ 4 / fact 4)"
    using et c by (intro mult_right_mono) auto
  then have r1: "(exp t / fact 4) * (- (3/17::real)) ^ 4 \<le> 3 * ((3/17) ^ 4 / 24)"
    by (simp add: fact_numeral)
  have n1: "(0.83818::real) < 1 - 3/17 + (3/17)^2/2 - (3/17)^3/6"
    by (simp add: power2_eq_square power3_eq_cube)
  have n2: "(1::real) - 3/17 + (3/17)^2/2 - (3/17)^3/6 + 3 * ((3/17) ^ 4 / 24) < 0.83835"
    by (simp add: power2_eq_square power3_eq_cube power4_eq_xxxx)
  show ?thesis
    unfolding e s using r0 r1 n1 n2 by linarith
qed

lemma metrics_empty:
  "calculateConsistencyMetrics [] =
     \<lparr>mean = 0, stdDev = 0, coefficientOfVariation = 0, min_v = 0, max_v = 0, variance = 0\<rparr>"
  by (simp add: calculateConsistencyMetrics_def)

lemma metrics_single:
  "calculateConsistencyMetrics [s] =
     \<lparr>mean = s, stdDev = 0, coefficientOfVariation = 0, min_v = s, max_v = s, variance = 0\<rparr>"
  by (simp add: calculateConsistencyMetrics_def)

lemma metrics_many:
  assumes "2 \<le> length scores"
  defines "\<mu> \<equiv> sum_list scores / real (length scores)"
  defines "v \<equiv> (\<Sum>x\<leftarrow>scores. (x - \<mu>)\<^sup>2) / real (length scores - 1)"
  shows "calculateConsistencyMetrics scores =
     \<lparr>mean = \<mu>, stdDev = sqrt v,
      coefficientOfVariation = (if \<mu> \<noteq> 0 then sqrt v / \<mu> else 0),
      min_v = Min (set scores), max_v = Max (set scores), variance = v\<rparr>"
proof -
  from assms(1) have "scores \<noteq> []" "length scores \<noteq> 1" "length scores \<noteq> 0" by auto
  then show ?thesis unfolding \<mu>_def v_def
    by (simp add: calculateConsistencyMetrics_def Let_def foldl_add_sum foldl_sq_sum)
qed

lemma metrics_example:
  "calculateConsistencyMetrics [80, 85, 90] =
     \<lparr>mean = 85, stdDev = 5, coefficientOfVariation = 1 / 17, min_v = 80, max_v = 90, variance = 25\<rparr>"
proof -
  have "sqrt 25 = sqrt (5\<^sup>2)" by simp
  then have s: "sqrt 25 = 5" by (simp del: power2_eq_square)
  show ?thesis
    by (simp add: calculateConsistencyMetrics_def Let_def s)
qed

lemma score_example: "\<bar>calculateConsistencyScore (1 / 17) - 83.8\<bar> < 0.05"
proof -
  have "calculateConsistencyScore (1 / 17) = 100 * exp (- (3 / 17))"
    using exp_neg_3_17_bounds by (simp add: calculateConsistencyScore_def Let_def)
  then show ?thesis using exp_neg_3_17_bounds by simp
qed

text \<open>
  Claim C7.  For every score list, \<open>calculateConsistencyMetrics\<close> returns the arithmetic mean,
  the sample variance with denominator \<open>n - 1\<close> (\<open>0\<close> when \<open>n \<le> 1\<close>), its square root as
  standard deviation, the coefficient of variation \<open>stdDev / mean\<close> (\<open>0\<close> when the mean is
  \<open>0\<close>), and the least and greatest score; the empty list yields all zeros.  For the
  scores \<open>[80, 85, 90]\<close> the mean is \<open>85\<close>, the standard deviation \<open>5\<close>, the coefficient of
  variation \<open>0.0588\<close> up to \<open>0.0001\<close> and the consistency score \<open>83.8\<close> up to \<open>0.05\<close>.
\<close>

theorem C7_descriptive_statistics:
  "(scores = [] \<longrightarrow> calculateConsistencyMetrics scores =
       \<lparr>mean = 0, stdDev = 0, coefficientOfVariation = 0, min_v = 0, max_v = 0, variance = 0\<rparr>)
   \<and> (scores \<noteq> [] \<longrightarrow>
       (let m = calculateConsistencyMetrics scores;
            n = length scores;
            \<mu> = sum_list scores / real n
        in mean m = \<mu>
         \<and> variance m = (if n \<le> 1 then 0 else (\<Sum>x\<leftarrow>scores. (x - \<mu>)\<^sup>2) / real (n - 1))
         \<and> stdDev m = sqrt (variance m)
         \<and> coefficientOfVariation m = (if mean m = 0 then 0 else stdDev m / mean m)
         \<and> min_v m = Min (set scores)
         \<and> max_v m = Max (set scores)))
   \<and> (let m = calculateConsistencyMetrics [80, 85, 90]
      in mean m = 85 \<and> stdDev m = 5
       \<and> \<bar>coefficientOfVariation m - 0.0588\<bar> < 0.0001
       \<and> \<bar>calculateConsistencyScore (coefficientOfVariation m) - 83.8\<bar> < 0.05)"
proof (intro conjI impI)
  assume "scores = []"
  then show "calculateConsistencyMetrics scores =
       \<lparr>mean = 0, stdDev = 0, coefficientOfVariation = 0, min_v = 0, max_v = 0, variance = 0\<rparr>"
    by (simp add: metrics_empty)
next
  assume ne: "scores \<noteq> []"
  show "let m = calculateConsistencyMetrics scores;
            n = length scores;
            \<mu> = sum_list scores / real n
        in mean m = \<mu>
         \<and> variance m = (if n \<le> 1 then 0 else (\<Sum>x\<leftarrow>scores. (x - \<mu>)\<^sup>2) / real (n - 1))
         \<and> stdDev m = sqrt (variance m)
         \<and> coefficientOfVariation m = (if mean m = 0 then 0 else stdDev m / mean m)
         \<and> min_v m = Min (set scores)
         \<and> max_v m = Max (set scores)"
  proof (cases "length scores = 1")
    case True
    then obtain s where "scores = [s]" by (cases scores) auto
    then show ?thesis by (simp add: metrics_single)
  next
    case False
    with ne have "2 \<le> length scores" by (cases scores; cases "tl scores") auto
    then show ?thesis by (simp add: metrics_many Let_def)
  qed
next
  show "let m = calculateConsistencyMetrics [80, 85, 90]
      in mean m = 85 \<and> stdDev m = 5
       \<and> \<bar>coefficientOfVariation m - 0.0588\<bar> < 0.0001
       \<and> \<bar>calculateConsistencyScore (coefficientOfVariation m) - 83.8\<bar> < 0.05"
    using score_example by (simp add: metrics_example)
qed

theorem C7_descriptive_statistics_witness:
  "[2, 4, 6] \<noteq> ([] :: real list)
   \<and> mean (calculateConsistencyMetrics [2, 4, 6]) = 4
   \<and> variance (calculateConsistencyMetrics [2, 4, 6]) = 4
   \<and> stdDev (calculateConsistencyMetrics [2, 4, 6]) = 2
   \<and> coefficientOfVariation (calculateConsistencyMetrics [2, 4, 6]) = 1 / 2
   \<and> min_v (calculateConsistencyMetrics [2, 4, 6]) = 2
   \<and> max_v (calculateConsistencyMetrics [2, 4, 6]) = 6"
proof -
  have "sqrt 4 = sqrt (2\<^sup>2)" by simp
  then have s: "sqrt 4 = 2" by (simp del: power2_eq_square)
  show ?thesis
    using C7_descriptive_statistics [of "[2, 4, 6]"] by (simp add: Let_def s)
qed




lemma resampleLoop_length: "length (fst (resampleLoop rnd array n k)) = n"
  by (induction n arbitrary: k) (simp_all add: Let_def case_prod_beta)

lemma resampleLoop_draws: "snd (resampleLoop rnd array n k) = k + n"
  by (induction n arbitrary: k) (simp_all add: Let_def case_prod_beta)

lemma bootstrapLoop_length: "length (fst (bootstrapLoop rnd scores n k)) = n"
  by (induction n arbitrary: k) (simp_all add: Let_def case_prod_beta)

lemma bootstrapLoop_draws: "snd (bootstrapLoop rnd scores n k) = k + n * length scores"
  by (induction n arbitrary: k)
     (simp_all add: Let_def case_prod_beta resampleWithReplacement_def resampleLoop_draws)

lemma bootstrapCI_many:
  assumes "2 \<le> length scores"
  shows "calculateBootstrapCI rnd k scores cl iterations =
     (let bootstrapMeans = sort (fst (bootstrapLoop rnd scores iterations k))
      in (\<lparr>lower = js_index bootstrapMeans (lowerIndex iterations cl),
           upper = js_index bootstrapMeans (upperIndex iterations cl),
           ci_mean = sum_list scores / real (length scores)\<rparr>,
          k + iterations * length scores))"
proof -
  from assms have "length scores \<noteq> 0" "length scores \<noteq> 1" by auto
  then show ?thesis
    by (simp add: calculateBootstrapCI_def Let_def case_prod_beta foldl_add_sum
        bootstrapLoop_length bootstrapLoop_draws)
qed

lemma lowerIndex_bounds:
  assumes "0 \<le> cl" "cl \<le> 1" "1 \<le> n"
  shows "0 \<le> lowerIndex n cl \<and> lowerIndex n cl < int n"
proof -
  have a: "0 \<le> real n * ((1 - cl) / 2)" using assms by simp
  have "real n * ((1 - cl) / 2) \<le> real n * (1 / 2)"
    using assms by (intro mult_left_mono) auto
  also have "\<dots> < real n" using assms by simp
  finally have b: "real n * ((1 - cl) / 2) < real n" .
  from a b show ?thesis
    by (simp add: lowerIndex_def Let_def floor_less_iff)
qed

lemma upperIndex_bounds:
  assumes "cl < 1" "- 1 \<le> cl" "1 \<le> n"
  shows "0 \<le> upperIndex n cl \<and> upperIndex n cl < int n"
proof -
  have a: "0 \<le> real n * (1 - (1 - cl) / 2)" using assms by simp
  have "real n * (1 - (1 - cl) / 2) < real n * 1"
    using assms by (intro mult_strict_left_mono) auto
  then have b: "real n * (1 - (1 - cl) / 2) < real n" by simp
  from a b show ?thesis
    by (simp add: upperIndex_def Let_def floor_less_iff)
qed

lemma upperIndex_one: "upperIndex n 1 = int n"
  by (simp add: upperIndex_def)

lemma lower_le_upperIndex:
  assumes "0 \<le> cl"
  shows "lowerIndex n cl \<le> upperIndex n cl"
proof -
  have "(1 - cl) / 2 \<le> 1 - (1 - cl) / 2"
    using assms by (simp add: field_simps)
  then have "real n * ((1 - cl) / 2) \<le> real n * (1 - (1 - cl) / 2)"
    by (intro mult_left_mono) auto
  then show ?thesis
    by (simp add: lowerIndex_def upperIndex_def Let_def floor_mono)
qed

lemma bootstrap_bounds_ordered:
  assumes "2 \<le> length scores" "0 \<le> cl" "cl < 1" "1 \<le> iterations"
  shows "\<exists>l u. lower (fst (calculateBootstrapCI rnd k scores cl iterations)) = Some l
             \<and> upper (fst (calculateBootstrapCI rnd k scores cl iterations)) = Some u \<and> l \<le> u"
proof -
  define bm where "bm = sort (fst (bootstrapLoop rnd scores iterations k))"
  have len: "length bm = iterations" by (simp add: bm_def bootstrapLoop_length)
  have srt: "sorted bm" by (simp add: bm_def)
  have li: "0 \<le> lowerIndex iterations cl" "lowerIndex iterations cl < int iterations"
    using lowerIndex_bounds [of cl iterations] assms by simp_all
  have ui: "0 \<le> upperIndex iterations cl" "upperIndex iterations cl < int iterations"
    using upperIndex_bounds [of cl iterations] assms by simp_all
  have lu: "lowerIndex iterations cl \<le> upperIndex iterations cl"
    using lower_le_upperIndex assms by simp
  have "bm ! nat (lowerIndex iterations cl) \<le> bm ! nat (upperIndex iterations cl)"
    using srt li ui lu len by (intro sorted_nth_mono) auto
  then show ?thesis
    using li ui len
    by (simp add: bootstrapCI_many [OF assms(1)] Let_def js_index_def bm_def [symmetric])
qed

lemma bootstrap_bounds_defined:
  assumes "0 \<le> cl" "cl < 1" "1 \<le> iterations"
  shows "\<exists>l u. lower (fst (calculateBootstrapCI rnd k scores cl iterations)) = Some l
             \<and> upper (fst (calculateBootstrapCI rnd k scores cl iterations)) = Some u \<and> l \<le> u"
proof (cases "2 \<le> length scores")
  case True
  then show ?thesis using assms by (rule bootstrap_bounds_ordered)
next
  case False
  then have "length scores = 0 \<or> length scores = 1" by arith
  then show ?thesis by (auto simp: calculateBootstrapCI_def)
qed

lemma bootstrap_default_defined:
  "\<exists>l u. lower (fst (calculateBootstrapCI rnd k scores 0.95 defaultIterations)) = Some l
         \<and> upper (fst (calculateBootstrapCI rnd k scores 0.95 defaultIterations)) = Some u \<and> l \<le> u"
  by (rule bootstrap_bounds_defined) (simp_all add: defaultIterations_def)

text \<open>
  Claim C9.  For a single score \<open>s\<close>, \<open>calculateBootstrapCI\<close> returns \<open>lower = upper = mean = s\<close>
  and consumes no random draw, whatever the confidence level and the number of iterations.
  For every score list the returned bounds are numbers with \<open>lower \<le> upper\<close>: with the
  default arguments (confidence level 0.95, 10000 iterations), and more generally for every
  confidence level in \<open>[0, 1)\<close> and at least one iteration.
\<close>

theorem C9_bootstrap_interval:
  "calculateBootstrapCI rnd k [s] cl iterations
     = (\<lparr>lower = Some s, upper = Some s, ci_mean = s\<rparr>, k)
   \<and> (random_ok rnd \<longrightarrow>
        (\<exists>l u. lower (fst (calculateBootstrapCI rnd k scores defaultConfidenceLevel defaultIterations)) = Some l
             \<and> upper (fst (calculateBootstrapCI rnd k scores defaultConfidenceLevel defaultIterations)) = Some u
             \<and> l \<le> u))
   \<and> (random_ok rnd \<and> 0 \<le> cl \<and> cl < 1 \<and> 1 \<le> iterations \<longrightarrow>
        (\<exists>l u. lower (fst (calculateBootstrapCI rnd k scores cl iterations)) = Some l
             \<and> upper (fst (calculateBootstrapCI rnd k scores cl iterations)) = Some u
             \<and> l \<le> u))"
proof -
  have single: "calculateBootstrapCI rnd k [s] cl iterations
     = (\<lparr>lower = Some s, upper = Some s, ci_mean = s\<rparr>, k)"
    by (simp add: calculateBootstrapCI_def)
  have general: "\<exists>l u. lower (fst (calculateBootstrapCI rnd k scores c n)) = Some l
             \<and> upper (fst (calculateBootstrapCI rnd k scores c n)) = Some u \<and> l \<le> u"
    if "0 \<le> c" "c < 1" "1 \<le> n" for c n
    using that by (rule bootstrap_bounds_defined)
  have dflt: "\<exists>l u. lower (fst (calculateBootstrapCI rnd k scores defaultConfidenceLevel defaultIterations)) = Some l
             \<and> upper (fst (calculateBootstrapCI rnd k scores defaultConfidenceLevel defaultIterations)) = Some u
             \<and> l \<le> u"
    by (rule general) (simp_all add: defaultConfidenceLevel_def defaultIterations_def)
  from single general dflt show ?thesis by blast
qed

theorem C9_bootstrap_interval_witness:
  "random_ok (\<lambda>k. if even k then 0 else 1 / 2)
   \<and> calculateBootstrapCI (\<lambda>k. if even k then 0 else 1 / 2) 0 [7] (19 / 20) 4
       = (\<lparr>lower = Some 7, upper = Some 7, ci_mean = 7\<rparr>, 0)
   \<and> (\<exists>l u. lower (fst (calculateBootstrapCI (\<lambda>k. if even k then 0 else 1 / 2) 0 [1, 2, 3]
                         defaultConfidenceLevel defaultIterations)) = Some l
           \<and> upper (fst (calculateBootstrapCI (\<lambda>k. if even k then 0 else 1 / 2) 0 [1, 2, 3]
                         defaultConfidenceLevel defaultIterations)) = Some u
           \<and> l \<le> u)
   \<and> (\<exists>l u. lower (fst (calculateBootstrapCI (\<lambda>k. if even k then 0 else 1 / 2) 0 [1, 2, 3]
                         (19 / 20) 4)) = Some l
           \<and> upper (fst (calculateBootstrapCI (\<lambda>k. if even k then 0 else 1 / 2) 0 [1, 2, 3]
                         (19 / 20) 4)) = Some u
           \<and> l \<le> u)"
proof -
  have r: "random_ok (\<lambda>k. if even k then 0 else 1 / 2)"
    by (simp add: random_ok_def)
  have h: "(0::real) \<le> 19 / 20" "(19 / 20 :: real) < 1" "(1::nat) \<le> 4" by simp_all
  show ?thesis
    using r h C9_bootstrap_interval
      [of "\<lambda>k. if even k then 0 else 1 / 2" 0 7 "19 / 20" 4 "[1, 2, 3]"]
    by blast
qed




section \<open>Generation client: proofs\<close>
lemma generateLoop_third:
  "generateLoop fetch p (Suc (Suc 0)) =
     (case readResponse (fetch (Suc (Suc 0))) of
        Inr t \<Rightarrow> (Inr t, [Fetch p])
      | Inl e3 \<Rightarrow> (Inl (FailedAfter 3 e3), [Fetch p]))"
  by (subst generateLoop.simps) (simp add: maxRetries_def split: sum.splits)

lemma generateLoop_second:
  "generateLoop fetch p (Suc 0) =
     (case readResponse (fetch (Suc 0)) of
        Inr t \<Rightarrow> (Inr t, [Fetch p])
      | Inl e2 \<Rightarrow>
         (case readResponse (fetch (Suc (Suc 0))) of
            Inr t \<Rightarrow> (Inr t, [Fetch p, Sleep 4000, Fetch p])
          | Inl e3 \<Rightarrow> (Inl (FailedAfter 3 e3), [Fetch p, Sleep 4000, Fetch p])))"
  by (subst generateLoop.simps)
     (simp add: maxRetries_def retryDelay_def generateLoop_third split: sum.splits)

lemma generateLoop_unrolled:
  "generateLoop fetch p 0 =
     (case readResponse (fetch 0) of
        Inr t \<Rightarrow> (Inr t, [Fetch p])
      | Inl e1 \<Rightarrow>
         (case readResponse (fetch 1) of
            Inr t \<Rightarrow> (Inr t, [Fetch p, Sleep 2000, Fetch p])
          | Inl e2 \<Rightarrow>
             (case readResponse (fetch 2) of
                Inr t \<Rightarrow> (Inr t, [Fetch p, Sleep 2000, Fetch p, Sleep 4000, Fetch p])
              | Inl e3 \<Rightarrow> (Inl (FailedAfter 3 e3),
                           [Fetch p, Sleep 2000, Fetch p, Sleep 4000, Fetch p]))))"
  by (subst generateLoop.simps)
     (simp add: maxRetries_def retryDelay_def generateLoop_second numeral_2_eq_2
        split: sum.splits)

lemma readResponse_content:
  "readResponse (BodyJson (Some (Some text # rest))) = Inr (trim text)"
  by (simp add: readResponse_def)

text \<open>
  Claim C5.  \<open>generate\<close> issues at most three requests.  If the first attempt succeeds its
  trimmed text is returned after one request; if it fails the client waits \<open>retryDelay * 1\<close>
  and tries again; after a second failure it waits \<open>retryDelay * 2\<close> and tries a third time;
  a success at any attempt returns that attempt's trimmed text with no further request,
  and after the third failure the call fails with the error of the third attempt, having
  issued exactly three requests.
\<close>

theorem C5_generate_retries:
  "let p = buildPayload modelName prompt maxTokens temp systemMessage sd;
       run = generate fetch modelName prompt maxTokens temp systemMessage sd
   in length (filter isFetch (snd run)) \<le> 3
   \<and> (\<forall>t. readResponse (fetch 0) = Inr t \<longrightarrow> run = (Inr t, [Fetch p]))
   \<and> (\<forall>e1 t. readResponse (fetch 0) = Inl e1 \<and> readResponse (fetch 1) = Inr t \<longrightarrow>
         run = (Inr t, [Fetch p, Sleep (retryDelay * 1), Fetch p]))
   \<and> (\<forall>e1 e2 t. readResponse (fetch 0) = Inl e1 \<and> readResponse (fetch 1) = Inl e2
           \<and> readResponse (fetch 2) = Inr t \<longrightarrow>
         run = (Inr t, [Fetch p, Sleep (retryDelay * 1), Fetch p, Sleep (retryDelay * 2), Fetch p]))
   \<and> (\<forall>e1 e2 e3. readResponse (fetch 0) = Inl e1 \<and> readResponse (fetch 1) = Inl e2
           \<and> readResponse (fetch 2) = Inl e3 \<longrightarrow>
         run = (Inl (FailedAfter 3 e3),
                [Fetch p, Sleep (retryDelay * 1), Fetch p, Sleep (retryDelay * 2), Fetch p]))
   \<and> (\<forall>k text rest. fetch k = BodyJson (Some (Some text # rest)) \<longrightarrow>
         readResponse (fetch k) = Inr (trim text))"
  unfolding Let_def generate_def generateLoop_unrolled
  by (simp add: isFetch_def retryDelay_def readResponse_content split: sum.splits)

theorem C5_generate_retries_witness:
  "generate (\<lambda>k. BodyJson (Some [Some '' yes ''])) ''m'' ''q'' 2000 0 None (Some 0)
     = (Inr ''yes'', [Fetch (buildPayload ''m'' ''q'' 2000 0 None (Some 0))])
   \<and> generate (\<lambda>k. if k < 1 then BodyNotJson else BodyJson (Some [Some '' yes '']))
        ''m'' ''q'' 2000 0 None (Some 0)
     = (Inr ''yes'', [Fetch (buildPayload ''m'' ''q'' 2000 0 None (Some 0)), Sleep 2000,
                     Fetch (buildPayload ''m'' ''q'' 2000 0 None (Some 0))])
   \<and> generate (\<lambda>k. if k < 2 then ResponseNotOk 503 ''busy'' else BodyJson (Some [Some '' yes '']))
        ''m'' ''q'' 2000 0 None (Some 0)
     = (Inr ''yes'', [Fetch (buildPayload ''m'' ''q'' 2000 0 None (Some 0)), Sleep 2000,
                     Fetch (buildPayload ''m'' ''q'' 2000 0 None (Some 0)), Sleep 4000,
                     Fetch (buildPayload ''m'' ''q'' 2000 0 None (Some 0))])
   \<and> generate (\<lambda>k. FetchRejected ''timeout'') ''m'' ''q'' 2000 0 None (Some 0)
     = (Inl (FailedAfter 3 (FetchError ''timeout'')),
        [Fetch (buildPayload ''m'' ''q'' 2000 0 None (Some 0)), Sleep 2000,
         Fetch (buildPayload ''m'' ''q'' 2000 0 None (Some 0)), Sleep 4000,
         Fetch (buildPayload ''m'' ''q'' 2000 0 None (Some 0))])"
proof -
  have t: "trim '' yes '' = ''yes''"
    by (simp add: trim_def js_whitespace_def)
  have a: "generate (\<lambda>k. BodyJson (Some [Some '' yes ''])) ''m'' ''q'' 2000 0 None (Some 0)
     = (Inr ''yes'', [Fetch (buildPayload ''m'' ''q'' 2000 0 None (Some 0))])"
    using C5_generate_retries [of "''m''" "''q''" 2000 0 None "Some 0"
        "\<lambda>k. BodyJson (Some [Some '' yes ''])"]
    by (simp add: Let_def readResponse_def t)
  have b: "generate (\<lambda>k. if k < 1 then BodyNotJson else BodyJson (Some [Some '' yes '']))
        ''m'' ''q'' 2000 0 None (Some 0)
     = (Inr ''yes'', [Fetch (buildPayload ''m'' ''q'' 2000 0 None (Some 0)), Sleep 2000,
                     Fetch (buildPayload ''m'' ''q'' 2000 0 None (Some 0))])"
    using C5_generate_retries [of "''m''" "''q''" 2000 0 None "Some 0"
        "\<lambda>k. if k < 1 then BodyNotJson else BodyJson (Some [Some '' yes ''])"]
    by (simp add: Let_def readResponse_def t retryDelay_def)
  have c: "generate (\<lambda>k. if k < 2 then ResponseNotOk 503 ''busy'' else BodyJson (Some [Some '' yes '']))
        ''m'' ''q'' 2000 0 None (Some 0)
     = (Inr ''yes'', [Fetch (buildPayload ''m'' ''q'' 2000 0 None (Some 0)), Sleep 2000,
                     Fetch (buildPayload ''m'' ''q'' 2000 0 None (Some 0)), Sleep 4000,
                     Fetch (buildPayload ''m'' ''q'' 2000 0 None (Some 0))])"
    using C5_generate_retries [of "''m''" "''q''" 2000 0 None "Some 0"
        "\<lambda>k. if k < 2 then ResponseNotOk 503 ''busy'' else BodyJson (Some [Some '' yes ''])"]
    by (simp add: Let_def readResponse_def t retryDelay_def)
  have d: "generate (\<lambda>k. FetchRejected ''timeout'') ''m'' ''q'' 2000 0 None (Some 0)
     = (Inl (FailedAfter 3 (FetchError ''timeout'')),
        [Fetch (buildPayload ''m'' ''q'' 2000 0 None (Some 0)), Sleep 2000,
         Fetch (buildPayload ''m'' ''q'' 2000 0 None (Some 0)), Sleep 4000,
         Fetch (buildPayload ''m'' ''q'' 2000 0 None (Some 0))])"
    using C5_generate_retries [of "''m''" "''q''" 2000 0 None "Some 0"
        "\<lambda>k. FetchRejected ''timeout''"]
    by (simp add: Let_def readResponse_def retryDelay_def)
  from a b c d show ?thesis by blast
qed

section \<open>Judge: proofs\<close>




lemma tryParse_null:
  "JSON_parse (extractJson t) = Some JNull \<Longrightarrow> tryParse JSON_parse t rubric = Inl TypeError"
  by (simp add: tryParse_def get_property_def)


lemma ex4: "extractScore scorePatterns ''well done'' = Finite 0"
  by code_simp

























section \<open>Evaluation runner: proofs\<close>
lemma promiseAll_Inr_iff:
  "promiseAll order outcome slots = Inr slots' \<longleftrightarrow>
     (\<forall>i \<in> set order. \<exists>x. outcome i = Inr x)
     \<and> slots' = fold (\<lambda>i s. s[i := Some (projr (outcome i))]) order slots"
proof (induction order arbitrary: slots)
  case Nil
  then show ?case by auto
next
  case (Cons i order)
  show ?case
  proof (cases "outcome i")
    case (Inl e)
    then show ?thesis by auto
  next
    case (Inr x)
    then show ?thesis using Cons.IH [of "slots[i := Some x]"] by auto
  qed
qed

lemma fold_slots_length:
  "length (fold (\<lambda>i s. s[i := Some (f i)]) order slots) = length slots"
  by (induction order arbitrary: slots) auto

lemma fold_slots_nth:
  assumes "j < length slots" "j \<in> set order"
  shows "fold (\<lambda>i s. s[i := Some (f i)]) order slots ! j = Some (f j)"
  using assms
proof (induction order arbitrary: slots rule: rev_induct)
  case Nil
  then show ?case by simp
next
  case (snoc i order)
  show ?case
  proof (cases "i = j")
    case True
    with snoc.prems show ?thesis by (simp add: fold_slots_length)
  next
    case False
    with snoc.prems have "j \<in> set order" by auto
    with snoc.IH snoc.prems False show ?thesis by (simp add: fold_slots_length)
  qed
qed

lemma set_settleOrder: "set (settleOrder first n) = {0..<n}"
  by (auto simp: settleOrder_def Let_def)

lemma fold_slots_all:
  assumes "{0..<n} \<subseteq> set order"
  shows "map the (fold (\<lambda>i s. s[i := Some (f i)]) order (replicate n None)) = map f [0..<n]"
proof (rule nth_equalityI)
  show "length (map the (fold (\<lambda>i s. s[i := Some (f i)]) order (replicate n None))) = length (map f [0..<n])"
    by (simp add: fold_slots_length)
next
  fix j assume "j < length (map the (fold (\<lambda>i s. s[i := Some (f i)]) order (replicate n None)))"
  then have j: "j < n" by (simp add: fold_slots_length)
  with assms have "j \<in> set order" by auto
  with j have "fold (\<lambda>i s. s[i := Some (f i)]) order (replicate n None) ! j = Some (f j)"
    by (intro fold_slots_nth) auto
  with j show "map the (fold (\<lambda>i s. s[i := Some (f i)]) order (replicate n None)) ! j = map f [0..<n] ! j"
    by (simp add: fold_slots_length)
qed

text \<open>The trials of a pair succeed together exactly when each trial succeeds; the runs are in trial order.\<close>

lemma runTrials_Inr_iff:
  "fst (runTrials env n question v qt rubric) = Inr runs \<longleftrightarrow>
     (\<forall>i<n. \<exists>r. fst (runTrial env question v qt rubric i) = Inr r)
     \<and> runs = map (\<lambda>i. projr (fst (runTrial env question v qt rubric i))) [0..<n]"
proof -
  let ?order = "settleOrder (settle_first env (question_id question, v)) n"
  let ?tasks = "map (runTrial env question v qt rubric) [0..<n]"
  let ?out = "\<lambda>i. fst (?tasks ! i)"
  have out: "?out i = fst (runTrial env question v qt rubric i)" if "i < n" for i
    using that by simp
  have so: "set ?order = {0..<n}" by (rule set_settleOrder)
  have m: "map the (fold (\<lambda>i s. s[i := Some (projr (?out i))]) ?order (replicate n None))
        = map (\<lambda>i. projr (?out i)) [0..<n]"
    by (rule fold_slots_all) (simp add: so)
  have m2: "map (\<lambda>i. projr (?out i)) [0..<n] = map (\<lambda>i. projr (fst (runTrial env question v qt rubric i))) [0..<n]"
    by (rule map_cong) (auto simp: out)
  show ?thesis
  proof (cases "promiseAll ?order ?out (replicate n None)")
    case (Inl e)
    then have "\<not> (\<forall>i \<in> set ?order. \<exists>x. ?out i = Inr x)"
      using promiseAll_Inr_iff [of ?order ?out "replicate n None"] by auto
    then have "\<not> (\<forall>i<n. \<exists>r. fst (runTrial env question v qt rubric i) = Inr r)"
      unfolding so using out by auto
    with Inl show ?thesis by (simp add: runTrials_def Let_def)
  next
    case (Inr slots)
    then have a: "\<forall>i \<in> set ?order. \<exists>x. ?out i = Inr x"
      and s: "slots = fold (\<lambda>i s. s[i := Some (projr (?out i))]) ?order (replicate n None)"
      using promiseAll_Inr_iff [of ?order ?out "replicate n None" slots] by auto
    from a have "\<forall>i<n. \<exists>r. fst (runTrial env question v qt rubric i) = Inr r"
      unfolding so using out by auto
    moreover have "map the slots = map (\<lambda>i. projr (fst (runTrial env question v qt rubric i))) [0..<n]"
      unfolding s m m2 ..
    ultimately show ?thesis using Inr by (auto simp: runTrials_def Let_def)
  qed
qed

lemma runTrials_calls:
  "snd (runTrials env n question v qt rubric)
     = concat (map (\<lambda>i. snd (runTrial env question v qt rubric i)) [0..<n])"
  by (simp add: runTrials_def Let_def comp_def split: sum.splits)

lemma runTrials_Inr_trialRuns:
  "fst (runTrials env n question v (questionTextOf question v) (getRubricForVariant question v)) = Inr runs
     \<longleftrightarrow> (\<forall>i<n. \<exists>r. trialOutcome env question v i = Inr r) \<and> runs = trialRuns env n question v"
  unfolding trialOutcome_def trialRuns_def by (rule runTrials_Inr_iff)

text \<open>The effect of one pair, in the three cases of its trials.\<close>

lemma processVariant_failed:
  assumes "fst (runTrials env n question v (questionTextOf question v) (getRubricForVariant question v)) = Inl e"
  shows "processVariant env n nQ idx question v (vars, st) =
           (Inl e, st\<lparr>calls := calls st @ snd (runTrials env n question v (questionTextOf question v)
                                                      (getRubricForVariant question v))\<rparr>)"
  using assms by (simp add: processVariant_def Let_def case_prod_beta questionTextOf_def)

lemma processVariant_no_runs:
  assumes "fst (runTrials env n question v (questionTextOf question v) (getRubricForVariant question v)) = Inr []"
  shows "processVariant env n nQ idx question v (vars, st) =
           (Inl JsTypeError, st\<lparr>calls := calls st @ snd (runTrials env n question v (questionTextOf question v)
                                                      (getRubricForVariant question v))\<rparr>)"
  using assms by (simp add: processVariant_def Let_def case_prod_beta questionTextOf_def)

lemma processVariant_done:
  assumes "fst (runTrials env n question v (questionTextOf question v) (getRubricForVariant question v)) = Inr runs"
    and "runs \<noteq> []"
  shows "\<exists>vars' st'. processVariant env n nQ idx question v (vars, st) = (Inr vars', st')
     \<and> completedVariants vars' = completedVariants vars + 1
     \<and> allResponseStats vars' = allResponseStats vars @ [pairStat question runs]
     \<and> completedPairs vars' = completedPairs vars
     \<and> evalRunId vars' = evalRunId vars
     \<and> modelId vars' = modelId vars
     \<and> startTime vars' = startTime vars
     \<and> calls st' = calls st @ snd (runTrials env n question v (questionTextOf question v)
                                      (getRubricForVariant question v))
     \<and> draws st' = draws st
     \<and> evaluationRuns (db st') =
          map (\<lambda>row. if er_id row = evalRunId vars
                     then row\<lparr>er_currentQuestion := idx + 1,
                              er_currentQuestionId := Some (question_id question),
                              er_currentVariant := Some v,
                              er_responsesCompleted := Some (completedVariants vars + 1),
                              er_averageScore := Some (toFixed 2
                                 (currentScore (allResponseStats vars @ [pairStat question runs]) * 100)),
                              er_estimatedTimeRemaining := Some (math_round
                                 ((date_now env (completedVariants vars + 1) - startTime vars) / 1000
                                    / real (completedVariants vars + 1)
                                  * real_of_int (int (nQ * 2) - int (completedVariants vars + 1))))\<rparr>
                     else row) (evaluationRuns (db st))
     \<and> (\<exists>row. responses (db st') = responses (db st) @ [row]
          \<and> resp_evaluationRunId row = evalRunId vars
          \<and> resp_questionId row = question_id question
          \<and> resp_questionVariant row = v
          \<and> resp_responseText row = responseText (hd runs)
          \<and> resp_judgeReasoning row = judgeReasoning (hd runs)
          \<and> resp_runCount row = n
          \<and> resp_meanScore row = toFixed 2 (mean (calculateConsistencyMetrics (map trial_score runs)))
          \<and> resp_stdDev row = toFixed 2 (stdDev (calculateConsistencyMetrics (map trial_score runs)))
          \<and> resp_minScore row = toFixed 2 (min_v (calculateConsistencyMetrics (map trial_score runs)))
          \<and> resp_maxScore row = toFixed 2 (max_v (calculateConsistencyMetrics (map trial_score runs)))
          \<and> resp_coefficientOfVariation row
                = toFixed 4 (coefficientOfVariation (calculateConsistencyMetrics (map trial_score runs))))"
proof -
  from assms(2) obtain run0 rest where r: "runs = run0 # rest" by (cases runs) auto
  show ?thesis
    using assms(1) unfolding r
    by (simp add: processVariant_def Let_def case_prod_beta questionTextOf_def pairStat_def
        updateRun_def)
qed

lemma processQuestions_flat:
  "processQuestions env n nQ idx questions vs = processPairs env n nQ (indexedPairs idx questions) vs"
proof (induction questions arbitrary: idx vs)
  case Nil
  then show ?case by simp
next
  case (Cons q qs)
  show ?case
    by (simp add: Cons.IH split: prod.splits sum.splits)
qed

lemma map_snd_indexedPairs: "map snd (indexedPairs idx questions) = allPairs questions"
  by (induction questions arbitrary: idx) (simp_all add: allPairs_def)

lemma length_trialRuns: "length (trialRuns env n q v) = n"
  by (simp add: trialRuns_def)

lemma runRowsOf_map:
  assumes "\<And>row. er_id (f row) = er_id row"
  shows "runRowsOf rid (d\<lparr>evaluationRuns := map (\<lambda>row. if er_id row = rid' then f row else row) (evaluationRuns d)\<rparr>)
           = map (\<lambda>row. if er_id row = rid' then f row else row) (runRowsOf rid d)"
  using assms by (simp add: runRowsOf_def filter_map comp_def if_distrib [of er_id] cong: if_cong)

text \<open>What a successfully processed pair tells.\<close>

lemma processVariant_Inr:
  assumes "processVariant env n nQ idx q v (vars, st) = (Inr vars1, st1)"
  shows "1 \<le> n"
    and "\<forall>i<n. \<exists>r. trialOutcome env q v i = Inr r"
    and "completedVariants vars1 = completedVariants vars + 1"
    and "allResponseStats vars1 = allResponseStats vars @ [pairStat q (trialRuns env n q v)]"
    and "completedPairs vars1 = completedPairs vars"
    and "evalRunId vars1 = evalRunId vars"
    and "calls st1 = calls st @ snd (runTrials env n q v (questionTextOf q v) (getRubricForVariant q v))"
    and "draws st1 = draws st"
    and "map er_id (evaluationRuns (db st1)) = map er_id (evaluationRuns (db st))"
    and "map er_status (evaluationRuns (db st1)) = map er_status (evaluationRuns (db st))"
    and "counterSynced vars1 st1"
    and "list_all (\<lambda>row. er_averageScore row
                  = Some (toFixed 2 (currentScore (allResponseStats vars1) * 100)))
           (runRowsOf (evalRunId vars1) (db st1))"
proof -
  let ?rt = "runTrials env n q v (questionTextOf q v) (getRubricForVariant q v)"
  obtain runs where runs: "fst ?rt = Inr runs" and ne: "runs \<noteq> []"
  proof (cases "fst ?rt")
    case (Inl e)
    from processVariant_failed [OF Inl, of nQ idx vars st] assms show ?thesis by simp
  next
    case (Inr runs)
    show ?thesis
    proof (cases "runs = []")
      case True
      with Inr processVariant_no_runs [of env n q v nQ idx vars st] assms show ?thesis by simp
    next
      case False
      with Inr that show ?thesis by blast
    qed
  qed
  from runs have tr: "runs = trialRuns env n q v"
    and ok: "\<forall>i<n. \<exists>r. trialOutcome env q v i = Inr r"
    using runTrials_Inr_trialRuns [of env n q v runs] by auto
  from ne tr have n: "1 \<le> n" using length_trialRuns [of env n q v] by (cases n) auto
  note d = processVariant_done [OF runs ne, of nQ idx vars st, unfolded assms tr]
  from d have ev: "evaluationRuns (db st1) =
          map (\<lambda>row. if er_id row = evalRunId vars
                     then row\<lparr>er_currentQuestion := idx + 1,
                              er_currentQuestionId := Some (question_id q),
                              er_currentVariant := Some v,
                              er_responsesCompleted := Some (completedVariants vars + 1),
                              er_averageScore := Some (toFixed 2
                                 (currentScore (allResponseStats vars @ [pairStat q (trialRuns env n q v)]) * 100)),
                              er_estimatedTimeRemaining := Some (math_round
                                 ((date_now env (completedVariants vars + 1) - startTime vars) / 1000
                                    / real (completedVariants vars + 1)
                                  * real_of_int (int (nQ * 2) - int (completedVariants vars + 1))))\<rparr>
                     else row) (evaluationRuns (db st))"
    by blast
  from d have cv: "completedVariants vars1 = completedVariants vars + 1"
    and ars: "allResponseStats vars1 = allResponseStats vars @ [pairStat q (trialRuns env n q v)]"
    and rid: "evalRunId vars1 = evalRunId vars"
    by auto
  show "1 \<le> n" by (rule n)
  show "\<forall>i<n. \<exists>r. trialOutcome env q v i = Inr r" by (rule ok)
  show "completedVariants vars1 = completedVariants vars + 1" by (rule cv)
  show "allResponseStats vars1 = allResponseStats vars @ [pairStat q (trialRuns env n q v)]" by (rule ars)
  show "completedPairs vars1 = completedPairs vars" using d by auto
  show "evalRunId vars1 = evalRunId vars" by (rule rid)
  show "calls st1 = calls st @ snd ?rt" using d by auto
  show "draws st1 = draws st" using d by auto
  show "map er_id (evaluationRuns (db st1)) = map er_id (evaluationRuns (db st))"
    unfolding ev by (simp add: comp_def if_distrib [of er_id] cong: if_cong)
  show "map er_status (evaluationRuns (db st1)) = map er_status (evaluationRuns (db st))"
    unfolding ev by (simp add: comp_def if_distrib [of er_status] cong: if_cong)
  show "counterSynced vars1 st1"
    unfolding counterSynced_def runRowsOf_def ev cv rid
    by (auto simp: list_all_iff)
  show "list_all (\<lambda>row. er_averageScore row
                  = Some (toFixed 2 (currentScore (allResponseStats vars1) * 100)))
           (runRowsOf (evalRunId vars1) (db st1))"
    unfolding runRowsOf_def ev ars rid
    by (auto simp: list_all_iff)
qed
text \<open>The loop over the pairs, when it runs to its end.\<close>

lemma processPairs_Inr:
  assumes "processPairs env n nQ ps (vars, st) = (Inr vars', st')"
  shows "completedVariants vars'
           = completedVariants vars + length (filter (\<lambda>p. pairKey (snd p) \<notin> completedPairs vars) ps)
       \<and> allResponseStats vars'
           = allResponseStats vars @
             map (\<lambda>p. pairStat (fst (snd p)) (trialRuns env n (fst (snd p)) (snd (snd p))))
               (filter (\<lambda>p. pairKey (snd p) \<notin> completedPairs vars) ps)
       \<and> completedPairs vars' = completedPairs vars
       \<and> evalRunId vars' = evalRunId vars
       \<and> calls st' = calls st @
             concat (map (\<lambda>p. snd (runTrials env n (fst (snd p)) (snd (snd p))
                                    (questionTextOf (fst (snd p)) (snd (snd p)))
                                    (getRubricForVariant (fst (snd p)) (snd (snd p)))))
               (filter (\<lambda>p. pairKey (snd p) \<notin> completedPairs vars) ps))
       \<and> draws st' = draws st
       \<and> map er_id (evaluationRuns (db st')) = map er_id (evaluationRuns (db st))
       \<and> map er_status (evaluationRuns (db st')) = map er_status (evaluationRuns (db st))
       \<and> (counterSynced vars st \<longrightarrow> counterSynced vars' st')
       \<and> (filter (\<lambda>p. pairKey (snd p) \<notin> completedPairs vars) ps \<noteq> [] \<longrightarrow> 1 \<le> n)
       \<and> (\<forall>p \<in> set (filter (\<lambda>p. pairKey (snd p) \<notin> completedPairs vars) ps).
             \<forall>i<n. \<exists>r. trialOutcome env (fst (snd p)) (snd (snd p)) i = Inr r)"
  using assms
proof (induction ps arbitrary: vars st)
  case Nil
  then show ?case by simp
next
  case (Cons p ps)
  obtain idx q v where p: "p = (idx, q, v)" by (cases p) auto
  show ?case
  proof (cases "variantKey (question_id q) v \<in> completedPairs vars")
    case True
    with Cons.prems p have "processPairs env n nQ ps (vars, st) = (Inr vars', st')" by simp
    from Cons.IH [OF this] True p show ?thesis by (auto simp: pairKey_def)
  next
    case False
    obtain r1 st1 where pv: "processVariant env n nQ idx q v (vars, st) = (r1, st1)"
      by (cases "processVariant env n nQ idx q v (vars, st)") auto
    with Cons.prems p False obtain vars1 where r1: "r1 = Inr vars1"
      by (cases r1) auto
    with Cons.prems p False pv have rest: "processPairs env n nQ ps (vars1, st1) = (Inr vars', st')"
      by simp
    note step = processVariant_Inr [OF pv [unfolded r1]]
    note ih = Cons.IH [OF rest, unfolded step(3,4,5,6,7,8,9,10)]
    have sy: "counterSynced vars1 st1" by (rule step(11))
    from ih sy step(1,2) False p show ?thesis
      by (auto simp: pairKey_def)
  qed
qed
lemma insertPillarScores_keeps:
  "evaluationRuns (db (snd (insertPillarScores env vars m st))) = evaluationRuns (db st)
   \<and> calls (snd (insertPillarScores env vars m st)) = calls st
   \<and> responses (db (snd (insertPillarScores env vars m st))) = responses (db st)"
proof (induction m arbitrary: st)
  case Nil
  then show ?case by simp
next
  case (Cons e m)
  obtain pid ss ns where e: "e = (pid, ss, ns)" by (cases e) auto
  show ?case
    unfolding e
    by (simp add: Let_def case_prod_beta Cons.IH split: option.splits)
qed

lemma insertPillarScores_succeeds: "\<exists>st'. insertPillarScores env vars m st = (Inr (), st')"
proof (induction m arbitrary: st)
  case Nil
  then show ?case by simp
next
  case (Cons e m)
  obtain pid ss ns where e: "e = (pid, ss, ns)" by (cases e) auto
  obtain l u where "lower (fst (calculateBootstrapCI (math_random env) (draws st) ns 0.95 defaultIterations)) = Some l"
    "upper (fst (calculateBootstrapCI (math_random env) (draws st) ns 0.95 defaultIterations)) = Some u"
    using bootstrap_default_defined by blast
  then show ?case
    unfolding e by (simp add: Let_def case_prod_beta Cons.IH)
qed

lemma finishRun_result:
  "\<exists>result st'. finishRun env n nQ vars st = (Inr result, st')
     \<and> evaluationRuns (db st') =
          map (\<lambda>row. if er_id row = evalRunId vars
                     then row\<lparr>er_status := Completed,
                              er_completedAt := Some (date_now env (completedVariants vars))\<rparr>
                     else row) (evaluationRuns (db st))
     \<and> calls st' = calls st
     \<and> responses (db st') = responses (db st)
     \<and> total_responses result = length (allResponseStats vars)"
proof -
  obtain st1 where ip: "insertPillarScores env vars (pillarScoreMap (allResponseStats vars)) st = (Inr (), st1)"
    using insertPillarScores_succeeds by blast
  have k: "evaluationRuns (db st1) = evaluationRuns (db st)" "calls st1 = calls st"
    "responses (db st1) = responses (db st)"
    using insertPillarScores_keeps [of env vars "pillarScoreMap (allResponseStats vars)" st]
    by (simp_all add: ip)
  let ?ns = "map (\<lambda>r. mean_score r / stat_max_score r * 100) (allResponseStats vars)"
  obtain l u where "lower (fst (calculateBootstrapCI (math_random env) (draws st1) ?ns 0.95 defaultIterations)) = Some l"
    "upper (fst (calculateBootstrapCI (math_random env) (draws st1) ?ns 0.95 defaultIterations)) = Some u"
    using bootstrap_default_defined by blast
  then show ?thesis
    by (simp add: finishRun_def ip Let_def case_prod_beta updateRun_def k)
qed
text \<open>The loop runs to its end when every trial of every pending pair succeeds.\<close>

lemma processVariant_succeeds:
  assumes "1 \<le> n" "\<forall>i<n. \<exists>r. trialOutcome env q v i = Inr r"
  shows "\<exists>vars1 st1. processVariant env n nQ idx q v (vars, st) = (Inr vars1, st1)"
proof -
  from assms(2) have r: "fst (runTrials env n q v (questionTextOf q v) (getRubricForVariant q v))
      = Inr (trialRuns env n q v)"
    using runTrials_Inr_trialRuns [of env n q v "trialRuns env n q v"] by simp
  from assms(1) have "trialRuns env n q v \<noteq> []"
    using length_trialRuns [of env n q v] by (cases "trialRuns env n q v") auto
  from processVariant_done [OF r this, of nQ idx vars st] show ?thesis by blast
qed

lemma processPairs_succeeds:
  assumes "\<forall>p \<in> set (filter (\<lambda>p. pairKey (snd p) \<notin> completedPairs vars) ps).
             \<forall>i<n. \<exists>r. trialOutcome env (fst (snd p)) (snd (snd p)) i = Inr r"
    and "filter (\<lambda>p. pairKey (snd p) \<notin> completedPairs vars) ps \<noteq> [] \<longrightarrow> 1 \<le> n"
  shows "\<exists>vars' st'. processPairs env n nQ ps (vars, st) = (Inr vars', st')"
  using assms
proof (induction ps arbitrary: vars st)
  case Nil
  then show ?case by simp
next
  case (Cons p ps)
  obtain idx q v where p: "p = (idx, q, v)" by (cases p) auto
  show ?case
  proof (cases "variantKey (question_id q) v \<in> completedPairs vars")
    case True
    with Cons.prems p have "\<exists>vars' st'. processPairs env n nQ ps (vars, st) = (Inr vars', st')"
      by (intro Cons.IH) (auto simp: pairKey_def)
    with True p show ?thesis by simp
  next
    case False
    with Cons.prems p have n: "1 \<le> n" and ok: "\<forall>i<n. \<exists>r. trialOutcome env q v i = Inr r"
      by (auto simp: pairKey_def)
    from processVariant_succeeds [OF n ok] obtain vars1 st1
      where pv: "processVariant env n nQ idx q v (vars, st) = (Inr vars1, st1)" by blast
    have cp: "completedPairs vars1 = completedPairs vars"
      by (rule processVariant_Inr(5) [OF pv])
    have a: "\<forall>p \<in> set (filter (\<lambda>p. pairKey (snd p) \<notin> completedPairs vars1) ps).
             \<forall>i<n. \<exists>r. trialOutcome env (fst (snd p)) (snd (snd p)) i = Inr r"
      using Cons.prems(1) unfolding cp by auto
    have b: "filter (\<lambda>p. pairKey (snd p) \<notin> completedPairs vars1) ps \<noteq> [] \<longrightarrow> 1 \<le> n"
      using n by simp
    have "\<exists>vars' st'. processPairs env n nQ ps (vars1, st1) = (Inr vars', st')"
      using a b by (rule Cons.IH)
    with False p pv show ?thesis by simp
  qed
qed

text \<open>The calls of a pair: all for its key, one generation per trial.\<close>

lemma runTrial_calls:
  "(\<forall>c \<in> set (snd (runTrial env q v qt rubric i)). callKey c = variantKey (question_id q) v)
   \<and> length (filter isGenerateCall (snd (runTrial env q v qt rubric i))) = 1
   \<and> filter isGenerateCall (snd (runTrial env q v qt rubric i))
       = [GenerateCall (question_id q, v, i + 1) (trialArgs qt i)]"
  by (simp add: runTrial_def Let_def callKey_def isGenerateCall_def split: sum.splits)


lemma runTrials_generate_calls:
  "filter isGenerateCall (snd (runTrials env n q v qt rubric))
     = map (\<lambda>i. GenerateCall (question_id q, v, i + 1) (trialArgs qt i)) [0..<n]"
proof -
  have "filter isGenerateCall (concat (map (\<lambda>i. snd (runTrial env q v qt rubric i)) xs))
      = map (\<lambda>i. GenerateCall (question_id q, v, i + 1) (trialArgs qt i)) xs" for xs
    using runTrial_calls [of env q v qt rubric] by (induction xs) auto
  then show ?thesis unfolding runTrials_calls .
qed


lemma filter_indexedPairs:
  "map snd (filter (\<lambda>p. pairKey (snd p) \<notin> done) (indexedPairs idx questions))
     = pendingPairs done questions"
  unfolding pendingPairs_def map_snd_indexedPairs [of idx questions, symmetric]
  by (simp add: filter_map comp_def)

lemma loadPartialEvaluation_rows:
  "loadPartialEvaluation d rid =
     (case runRowsOf rid d of
        [] \<Rightarrow> Inl (RunNotFound rid)
      | run # _ \<Rightarrow>
          if er_status run = Completed then Inl (RunAlreadyCompleted rid)
          else Inr (run, filter (\<lambda>r. resp_evaluationRunId r = rid) (responses d)))"
  by (simp add: loadPartialEvaluation_def runRowsOf_def)


lemma startRun_resume:
  assumes "runRowsOf rid (db st) = run # others" "er_status run \<noteq> Completed"
    and "startRun env config questions (Some rid) st = (Inr vars0, st0)"
  shows "st0 = st" and "evalRunId vars0 = rid"
    and "completedVariants vars0 = (case er_responsesCompleted run of None \<Rightarrow> 0 | Some k \<Rightarrow> k)"
    and "completedPairs vars0 = storedKeys rid (db st)"
    and "loadStats (db st) questions (filter (\<lambda>r. resp_evaluationRunId r = rid) (responses (db st)))
           = Inr (allResponseStats vars0)"
proof -
  let ?rs = "filter (\<lambda>r. resp_evaluationRunId r = rid) (responses (db st))"
  have lp: "loadPartialEvaluation (db st) rid = Inr (run, ?rs)"
    using assms(1,2) by (simp add: loadPartialEvaluation_rows)
  obtain stats where ls: "loadStats (db st) questions ?rs = Inr stats"
  proof (cases "loadStats (db st) questions ?rs")
    case (Inl e)
    with lp assms(3) show ?thesis by (simp add: startRun_def)
  next
    case (Inr stats)
    with that show ?thesis by blast
  qed
  have eq: "startRun env config questions (Some rid) st =
     (Inr \<lparr>modelId = er_modelId run, evalRunId = rid,
            completedVariants = (case er_responsesCompleted run of None \<Rightarrow> 0 | Some k \<Rightarrow> k),
            startTime = (case er_startedAt run of None \<Rightarrow> start_now env | Some t \<Rightarrow> t),
            completedPairs = storedKeys rid (db st),
            allResponseStats = stats\<rparr>, st)"
    by (simp add: startRun_def lp ls storedKeys_def)
  with assms(3) have v: "vars0 = \<lparr>modelId = er_modelId run, evalRunId = rid,
            completedVariants = (case er_responsesCompleted run of None \<Rightarrow> 0 | Some k \<Rightarrow> k),
            startTime = (case er_startedAt run of None \<Rightarrow> start_now env | Some t \<Rightarrow> t),
            completedPairs = storedKeys rid (db st),
            allResponseStats = stats\<rparr>" and s: "st0 = st"
    by auto
  show "st0 = st" by (rule s)
  show "evalRunId vars0 = rid" by (simp add: v)
  show "completedVariants vars0 = (case er_responsesCompleted run of None \<Rightarrow> 0 | Some k \<Rightarrow> k)"
    by (simp add: v)
  show "completedPairs vars0 = storedKeys rid (db st)" by (simp add: v)
  show "loadStats (db st) questions ?rs = Inr (allResponseStats vars0)" by (simp add: v ls)
qed

lemma filter_er_id_cong:
  assumes "length xs = length ys" "map er_id xs = map er_id ys" "map er_status xs = map er_status ys"
  shows "length (filter (\<lambda>row. er_id row = rid) xs) = length (filter (\<lambda>row. er_id row = rid) ys)
       \<and> map er_status (filter (\<lambda>row. er_id row = rid) xs)
           = map er_status (filter (\<lambda>row. er_id row = rid) ys)"
  using assms
proof (induction xs ys rule: list_induct2)
  case Nil
  then show ?case by simp
next
  case (Cons x xs y ys)
  from Cons.prems have "er_id x = er_id y" "er_status x = er_status y"
    "map er_id xs = map er_id ys" "map er_status xs = map er_status ys"
    by simp_all
  with Cons.IH show ?case by simp
qed

lemma runRowsOf_cong:
  assumes "map er_id (evaluationRuns d') = map er_id (evaluationRuns d)"
    and "map er_status (evaluationRuns d') = map er_status (evaluationRuns d)"
  shows "length (runRowsOf rid d') = length (runRowsOf rid d)"
    and "map er_status (runRowsOf rid d') = map er_status (runRowsOf rid d)"
proof -
  from assms(1) have "length (evaluationRuns d') = length (evaluationRuns d)"
    by (rule map_eq_imp_length_eq)
  from filter_er_id_cong [OF this assms]
  show "length (runRowsOf rid d') = length (runRowsOf rid d)"
    and "map er_status (runRowsOf rid d') = map er_status (runRowsOf rid d)"
    by (simp_all add: runRowsOf_def)
qed

lemma filter_map_er_id:
  assumes "\<And>row. er_id (f row) = er_id row"
  shows "filter (\<lambda>row. er_id row = rid) (map (\<lambda>row. if er_id row = rid' then f row else row) xs)
       = map (\<lambda>row. if er_id row = rid' then f row else row) (filter (\<lambda>row. er_id row = rid) xs)"
  using assms by (induction xs) auto

lemma runEvaluation_resume_succeeds:
  assumes rows: "runRowsOf rid (db st) = run # others"
    and status: "er_status run \<noteq> Completed"
    and stats: "loadStats (db st) questions
                  (filter (\<lambda>r. resp_evaluationRunId r = rid) (responses (db st))) = Inr stats"
    and trials: "\<forall>p \<in> set (pendingPairs (storedKeys rid (db st)) questions).
                   \<forall>i<n. \<exists>r. trialOutcome env (fst p) (snd p) i = Inr r"
    and n: "1 \<le> n"
  shows "\<exists>result st'. runEvaluation env config n questions (Some rid) st = (Inr result, st')"
proof -
  have lp: "loadPartialEvaluation (db st) rid
      = Inr (run, filter (\<lambda>r. resp_evaluationRunId r = rid) (responses (db st)))"
    using rows status by (simp add: loadPartialEvaluation_rows)
  obtain vars0 where sr: "startRun env config questions (Some rid) st = (Inr vars0, st)"
    by (simp add: startRun_def lp stats)
  have cp: "completedPairs vars0 = storedKeys rid (db st)"
    by (rule startRun_resume(4) [OF rows status sr])
  have "\<forall>p \<in> set (filter (\<lambda>p. pairKey (snd p) \<notin> completedPairs vars0) (indexedPairs 0 questions)).
             \<forall>i<n. \<exists>r. trialOutcome env (fst (snd p)) (snd (snd p)) i = Inr r"
  proof
    fix p assume "p \<in> set (filter (\<lambda>p. pairKey (snd p) \<notin> completedPairs vars0) (indexedPairs 0 questions))"
    then have "snd p \<in> set (map snd (filter (\<lambda>p. pairKey (snd p) \<notin> storedKeys rid (db st)) (indexedPairs 0 questions)))"
      unfolding cp set_map by (rule imageI)
    then have "snd p \<in> set (pendingPairs (storedKeys rid (db st)) questions)"
      by (simp only: filter_indexedPairs)
    with trials show "\<forall>i<n. \<exists>r. trialOutcome env (fst (snd p)) (snd (snd p)) i = Inr r"
      by blast
  qed
  then obtain vars1 st1 where
    pq: "processPairs env n (length questions) (indexedPairs 0 questions) (vars0, st) = (Inr vars1, st1)"
    using processPairs_succeeds [of vars0 "indexedPairs 0 questions" n env "length questions" st] n
    by blast
  obtain result st' where "finishRun env n (length questions) vars1 st1 = (Inr result, st')"
    using finishRun_result [of env n "length questions" vars1 st1] by blast
  with sr pq show ?thesis
    by (simp add: runEvaluation_def processQuestions_flat)
qed


lemma example_rows: "runRowsOf 7 (db (exampleState s)) = [exampleRun s]"
  by (simp add: runRowsOf_def exampleState_def exampleRun_def)

lemma example_status: "er_status (exampleRun s) = s"
  and example_counter: "er_responsesCompleted (exampleRun s) = Some 1"
  by (simp_all add: exampleRun_def)

lemma example_storedKeys: "storedKeys 7 (db (exampleState s)) = {variantKey ''q1'' Explicit}"
  by (simp add: storedKeys_def exampleState_def)

lemma example_allPairs:
  "map pairKey (allPairs [exampleQuestion]) = [variantKey ''q1'' Explicit, variantKey ''q1'' Implicit]"
  by (simp add: allPairs_def pairKey_def exampleQuestion_def)

lemma example_keys_differ: "variantKey ''q1'' Implicit \<noteq> variantKey ''q1'' Explicit"
  by (simp add: variantKey_def variant_name_def)


lemma example_pending:
  "pendingPairs (storedKeys 7 (db (exampleState s))) [exampleQuestion] = [(exampleQuestion, Implicit)]"
  using example_keys_differ
  by (simp add: pendingPairs_def example_storedKeys allPairs_def pairKey_def exampleQuestion_def)

lemma example_trials: "\<exists>r. trialOutcome exampleEnv q v i = Inr r"
  by (simp add: trialOutcome_def runTrial_def exampleEnv_def Let_def)

lemma example_loadStats:
  "\<exists>stats. loadStats (db (exampleState s)) [exampleQuestion]
      (filter (\<lambda>r. resp_evaluationRunId r = 7) (responses (db (exampleState s)))) = Inr stats"
  by (simp add: exampleState_def exampleQuestion_def)

lemma example_resume_succeeds:
  "\<exists>result st'. runEvaluation exampleEnv exampleConfig 1 [exampleQuestion] (Some 7) (exampleState Running)
      = (Inr result, st')"
proof -
  obtain stats where "loadStats (db (exampleState Running)) [exampleQuestion]
      (filter (\<lambda>r. resp_evaluationRunId r = 7) (responses (db (exampleState Running)))) = Inr stats"
    using example_loadStats by blast
  then show ?thesis
    using example_trials
    by (intro runEvaluation_resume_succeeds [OF example_rows]) (simp_all add: example_status)
qed

lemma runTrial_settle:
  "runTrial (env\<lparr>settle_first := f\<rparr>) q v qt rb i = runTrial env q v qt rb i"
  by (simp add: runTrial_def Let_def split: sum.splits)

lemma trialOutcome_settle:
  "trialOutcome (env\<lparr>settle_first := f\<rparr>) q v i = trialOutcome env q v i"
  by (simp add: trialOutcome_def runTrial_settle)

lemma runTrials_settle:
  assumes "fst (runTrials env n q v (questionTextOf q v) (getRubricForVariant q v)) = Inr runs"
  shows "runTrials (env\<lparr>settle_first := f\<rparr>) n q v (questionTextOf q v) (getRubricForVariant q v)
       = runTrials env n q v (questionTextOf q v) (getRubricForVariant q v)"
proof -
  let ?qt = "questionTextOf q v" and ?rb = "getRubricForVariant q v"
  from assms have ok: "\<forall>i<n. \<exists>r. trialOutcome env q v i = Inr r" and r: "runs = trialRuns env n q v"
    using runTrials_Inr_trialRuns [of env n q v runs] by auto
  have "trialRuns (env\<lparr>settle_first := f\<rparr>) n q v = trialRuns env n q v"
    by (simp add: trialRuns_def trialOutcome_settle)
  with ok have "fst (runTrials (env\<lparr>settle_first := f\<rparr>) n q v ?qt ?rb) = Inr (trialRuns env n q v)"
    using runTrials_Inr_trialRuns [of "env\<lparr>settle_first := f\<rparr>" n q v "trialRuns env n q v"]
    by (simp add: trialOutcome_settle)
  with assms r have "fst (runTrials (env\<lparr>settle_first := f\<rparr>) n q v ?qt ?rb) = fst (runTrials env n q v ?qt ?rb)"
    by simp
  moreover have "snd (runTrials (env\<lparr>settle_first := f\<rparr>) n q v ?qt ?rb) = snd (runTrials env n q v ?qt ?rb)"
    by (simp add: runTrials_calls runTrial_settle)
  ultimately show ?thesis by (rule prod_eqI)
qed

lemma processVariant_env_cong:
  assumes "runTrials env' n q v (questionTextOf q v) (getRubricForVariant q v)
             = runTrials env n q v (questionTextOf q v) (getRubricForVariant q v)"
    and "date_now env' = date_now env"
  shows "processVariant env' n nQ idx q v vs = processVariant env n nQ idx q v vs"
  unfolding processVariant_def Let_def questionTextOf_def [symmetric] assms by (rule refl)

lemma processVariant_settle:
  assumes "fst (runTrials env n q v (questionTextOf q v) (getRubricForVariant q v)) = Inr runs"
  shows "processVariant (env\<lparr>settle_first := f\<rparr>) n nQ idx q v vs = processVariant env n nQ idx q v vs"
  by (rule processVariant_env_cong [OF runTrials_settle [OF assms]]) simp

lemma processVariant_Inr_runs:
  assumes "processVariant env n nQ idx q v (vars, st) = (Inr vars1, st1)"
  shows "fst (runTrials env n q v (questionTextOf q v) (getRubricForVariant q v)) = Inr (trialRuns env n q v)"
  using processVariant_Inr(2) [OF assms] runTrials_Inr_trialRuns [of env n q v "trialRuns env n q v"]
  by simp

lemma trialArgs_fields:
  "arg_temperature (trialArgs qt 0) = 0" "arg_seed (trialArgs qt 0) = Some 0"
  "1 \<le> i \<Longrightarrow> arg_temperature (trialArgs qt i) = 0.7"
  "1 \<le> i \<Longrightarrow> arg_seed (trialArgs qt i) = None"
  "arg_prompt (trialArgs qt i) = qt"
  by (simp_all add: trialArgs_def Let_def)

lemma trialOutcome_first:
  assumes "trialOutcome env q v 0 = Inr r"
  shows "testModel env (question_id q, v, 1) (trialArgs (questionTextOf q v) 0) = Inr (responseText r)"
  using assms
  by (auto simp: trialOutcome_def runTrial_def Let_def split: sum.splits)
lemma metrics_nonempty:
  assumes "scores \<noteq> []"
  shows "mean (calculateConsistencyMetrics scores) = sum_list scores / real (length scores)"
    and "min_v (calculateConsistencyMetrics scores) = Min (set scores)"
    and "max_v (calculateConsistencyMetrics scores) = Max (set scores)"
proof -
  consider s where "scores = [s]" | "2 \<le> length scores"
    using assms by (cases scores; cases "tl scores") auto
  then have "mean (calculateConsistencyMetrics scores) = sum_list scores / real (length scores)
      \<and> min_v (calculateConsistencyMetrics scores) = Min (set scores)
      \<and> max_v (calculateConsistencyMetrics scores) = Max (set scores)"
  proof cases
    case 1
    then show ?thesis by (simp add: metrics_single)
  next
    case 2
    then show ?thesis by (simp add: metrics_many)
  qed
  then show "mean (calculateConsistencyMetrics scores) = sum_list scores / real (length scores)"
    and "min_v (calculateConsistencyMetrics scores) = Min (set scores)"
    and "max_v (calculateConsistencyMetrics scores) = Max (set scores)"
    by blast+
qed

text \<open>
  Claim C2.  When a pair is processed with \<open>n\<close> trials, \<open>n\<close> is at least 1 and the generation
  client is called once per trial, in trial order: trial 1 with temperature 0 and seed 0,
  every later trial with temperature 0.7 and no seed.  The stored response carries the text
  that the client returned to trial 1 and the reasoning of the judge for trial 1, where
  trial 1 is the first element of the array of runs, whatever the order in which the trials
  settle; its mean, standard deviation, minimum and maximum are those of the scores of all
  \<open>n\<close> trials, written with two decimals.
\<close>

theorem C2_trials:
  assumes "processVariant env n nQ idx q v (vars, st) = (Inr vars', st')"
  shows "1 \<le> n
    \<and> (\<exists>made. calls st' = calls st @ made
         \<and> filter isGenerateCall made
             = map (\<lambda>i. GenerateCall (question_id q, v, i + 1) (trialArgs (questionTextOf q v) i)) [0..<n])
    \<and> arg_temperature (trialArgs (questionTextOf q v) 0) = 0
    \<and> arg_seed (trialArgs (questionTextOf q v) 0) = Some 0
    \<and> (\<forall>i. 1 \<le> i \<longrightarrow> arg_temperature (trialArgs (questionTextOf q v) i) = 0.7
                     \<and> arg_seed (trialArgs (questionTextOf q v) i) = None)
    \<and> length (trialRuns env n q v) = n
    \<and> (\<forall>i<n. trialOutcome env q v i = Inr (trialRuns env n q v ! i))
    \<and> testModel env (question_id q, v, 1) (trialArgs (questionTextOf q v) 0)
         = Inr (responseText (trialRuns env n q v ! 0))
    \<and> (\<exists>row. responses (db st') = responses (db st) @ [row]
         \<and> resp_questionId row = question_id q \<and> resp_questionVariant row = v
         \<and> resp_runCount row = n
         \<and> resp_responseText row = responseText (trialRuns env n q v ! 0)
         \<and> resp_judgeReasoning row = judgeReasoning (trialRuns env n q v ! 0)
         \<and> resp_meanScore row
             = toFixed 2 (sum_list (map trial_score (trialRuns env n q v)) / real n)
         \<and> resp_stdDev row
             = toFixed 2 (stdDev (calculateConsistencyMetrics (map trial_score (trialRuns env n q v))))
         \<and> resp_minScore row = toFixed 2 (Min (set (map trial_score (trialRuns env n q v))))
         \<and> resp_maxScore row = toFixed 2 (Max (set (map trial_score (trialRuns env n q v)))))
    \<and> (\<forall>f. processVariant (env\<lparr>settle_first := f\<rparr>) n nQ idx q v (vars, st) = (Inr vars', st'))"
proof -
  let ?runs = "trialRuns env n q v"
  let ?rt = "runTrials env n q v (questionTextOf q v) (getRubricForVariant q v)"
  note step = processVariant_Inr [OF assms]
  have n: "1 \<le> n" by (rule step(1))
  have len: "length ?runs = n" by (rule length_trialRuns)
  with n have ne: "?runs \<noteq> []" by (cases ?runs) auto
  have rt: "fst ?rt = Inr ?runs" by (rule processVariant_Inr_runs [OF assms])
  have out: "trialOutcome env q v i = Inr (?runs ! i)" if "i < n" for i
  proof -
    from step(2) that obtain r where "trialOutcome env q v i = Inr r" by blast
    with that show ?thesis by (simp add: trialRuns_def)
  qed
  have first: "testModel env (question_id q, v, 1) (trialArgs (questionTextOf q v) 0)
         = Inr (responseText (?runs ! 0))"
    using out [of 0] n by (intro trialOutcome_first) simp
  have made: "\<exists>made. calls st' = calls st @ made
         \<and> filter isGenerateCall made
             = map (\<lambda>i. GenerateCall (question_id q, v, i + 1) (trialArgs (questionTextOf q v) i)) [0..<n]"
    using step(7) runTrials_generate_calls [of env n q v "questionTextOf q v" "getRubricForVariant q v"]
    by blast
  have hd: "hd ?runs = ?runs ! 0" using ne by (simp add: hd_conv_nth)
  have sc: "map trial_score ?runs \<noteq> []" using ne by simp
  from processVariant_done [OF rt ne, of nQ idx vars st] assms
  have row: "\<exists>row. responses (db st') = responses (db st) @ [row]
         \<and> resp_questionId row = question_id q \<and> resp_questionVariant row = v
         \<and> resp_runCount row = n
         \<and> resp_responseText row = responseText (?runs ! 0)
         \<and> resp_judgeReasoning row = judgeReasoning (?runs ! 0)
         \<and> resp_meanScore row = toFixed 2 (sum_list (map trial_score ?runs) / real n)
         \<and> resp_stdDev row = toFixed 2 (stdDev (calculateConsistencyMetrics (map trial_score ?runs)))
         \<and> resp_minScore row = toFixed 2 (Min (set (map trial_score ?runs)))
         \<and> resp_maxScore row = toFixed 2 (Max (set (map trial_score ?runs)))"
    unfolding hd metrics_nonempty [OF sc] by (auto simp: len)
  have settle: "processVariant (env\<lparr>settle_first := f\<rparr>) n nQ idx q v (vars, st) = (Inr vars', st')" for f
    using processVariant_settle [OF rt, of f nQ idx "(vars, st)"] assms by simp
  from n made len out first row settle show ?thesis
    by (simp add: trialArgs_fields)
qed
lemma example_processVariant:
  "\<exists>vars' st'. processVariant exampleEnv 2 1 0 exampleQuestion Implicit (exampleVars, exampleState Running)
      = (Inr vars', st')"
  using example_trials by (intro processVariant_succeeds) simp_all

lemma example_trialRuns:
  "trialRuns exampleEnv 2 exampleQuestion Implicit
     = [\<lparr>responseText = ''answer'', trial_score = 40, maxScore = 50, judgeReasoning = ''fair''\<rparr>,
        \<lparr>responseText = ''answer'', trial_score = 40, maxScore = 50, judgeReasoning = ''fair''\<rparr>]"
  by (simp add: trialRuns_def trialOutcome_def runTrial_def exampleEnv_def Let_def
      upt_rec [of 0] upt_rec [of 1] numeral_2_eq_2)

theorem C2_trials_witness:
  "\<exists>vars' st' row.
      processVariant exampleEnv 2 1 0 exampleQuestion Implicit (exampleVars, exampleState Running)
        = (Inr vars', st')
    \<and> filter isGenerateCall (calls st')
        = [GenerateCall (''q1'', Implicit, 1)
             \<lparr>arg_prompt = ''I'', arg_maxTokens = 2000, arg_temperature = 0,
              arg_systemMessage = None, arg_seed = Some 0\<rparr>,
           GenerateCall (''q1'', Implicit, 2)
             \<lparr>arg_prompt = ''I'', arg_maxTokens = 2000, arg_temperature = 7 / 10,
              arg_systemMessage = None, arg_seed = None\<rparr>]
    \<and> responses (db st') = responses (db (exampleState Running)) @ [row]
    \<and> resp_responseText row = ''answer'' \<and> resp_judgeReasoning row = ''fair''
    \<and> resp_meanScore row = toFixed 2 40 \<and> resp_minScore row = toFixed 2 40
    \<and> resp_maxScore row = toFixed 2 40"
proof -
  obtain vars' st' where pv:
    "processVariant exampleEnv 2 1 0 exampleQuestion Implicit (exampleVars, exampleState Running)
      = (Inr vars', st')"
    using example_processVariant by blast
  have c0: "calls (exampleState Running) = []" by (simp add: exampleState_def)
  have args: "map (\<lambda>i. GenerateCall (question_id exampleQuestion, Implicit, i + 1)
                      (trialArgs (questionTextOf exampleQuestion Implicit) i)) [0..<2]
        = [GenerateCall (''q1'', Implicit, 1)
             \<lparr>arg_prompt = ''I'', arg_maxTokens = 2000, arg_temperature = 0,
              arg_systemMessage = None, arg_seed = Some 0\<rparr>,
           GenerateCall (''q1'', Implicit, 2)
             \<lparr>arg_prompt = ''I'', arg_maxTokens = 2000, arg_temperature = 7 / 10,
              arg_systemMessage = None, arg_seed = None\<rparr>]"
    by (simp add: trialArgs_def questionTextOf_def exampleQuestion_def Let_def
        upt_rec [of 0] upt_rec [of 1] numeral_2_eq_2)
  from C2_trials [OF pv] have
    "filter isGenerateCall (calls st')
        = [GenerateCall (''q1'', Implicit, 1)
             \<lparr>arg_prompt = ''I'', arg_maxTokens = 2000, arg_temperature = 0,
              arg_systemMessage = None, arg_seed = Some 0\<rparr>,
           GenerateCall (''q1'', Implicit, 2)
             \<lparr>arg_prompt = ''I'', arg_maxTokens = 2000, arg_temperature = 7 / 10,
              arg_systemMessage = None, arg_seed = None\<rparr>]"
    and "\<exists>row. responses (db st') = responses (db (exampleState Running)) @ [row]
    \<and> resp_responseText row = ''answer'' \<and> resp_judgeReasoning row = ''fair''
    \<and> resp_meanScore row = toFixed 2 40 \<and> resp_minScore row = toFixed 2 40
    \<and> resp_maxScore row = toFixed 2 40"
    unfolding args example_trialRuns by (auto simp: c0)
  with pv show ?thesis by blast
qed
lemma foldl_add_field: "foldl (\<lambda>sum r. sum + f r) a xs = a + sum_list (map f xs)" for a :: real
  by (induction xs arbitrary: a) auto

lemma currentScore_sum:
  "currentScore stats = sum_list (map mean_score stats) / sum_list (map stat_max_score stats)"
  by (simp add: currentScore_def foldl_add_field)

lemma toFixed_error: "\<bar>toFixed d x - x\<bar> \<le> 1 / (2 * 10 ^ d)"
proof -
  define y where "y = x * 10 ^ d"
  have p: "(0::real) < 10 ^ d" by simp
  have "real_of_int \<lfloor>y + 1 / 2\<rfloor> \<le> y + 1 / 2" by (rule of_int_floor_le)
  moreover have "y + 1 / 2 < real_of_int \<lfloor>y + 1 / 2\<rfloor> + 1" by linarith
  ultimately have b: "\<bar>real_of_int \<lfloor>y + 1 / 2\<rfloor> - y\<bar> \<le> 1 / 2" by linarith
  have "toFixed d x - x = (real_of_int \<lfloor>y + 1 / 2\<rfloor> - y) / 10 ^ d"
    using p by (simp add: toFixed_def y_def field_simps)
  then have "\<bar>toFixed d x - x\<bar> = \<bar>real_of_int \<lfloor>y + 1 / 2\<rfloor> - y\<bar> / 10 ^ d"
    by (simp add: abs_divide)
  also have "\<dots> \<le> (1 / 2) / 10 ^ d"
    using b p by (intro divide_right_mono) auto
  finally show ?thesis by simp
qed

lemma loadStats_fields:
  assumes "loadStats d questions rows = Inr stats"
  shows "map mean_score stats = map resp_meanScore rows
       \<and> map stat_max_score stats
           = map (\<lambda>r. rr_maxScore (hd (filter (\<lambda>run. rr_responseId run = resp_id r) (responseRuns d)))) rows"
  using assms
proof (induction rows arbitrary: stats)
  case Nil
  then show ?case by simp
next
  case (Cons r rows)
  from Cons.prems obtain stats' where
    "loadStats d questions rows = Inr stats'"
    and "mean_score (hd stats) = resp_meanScore r"
    and "stat_max_score (hd stats)
         = rr_maxScore (hd (filter (\<lambda>run. rr_responseId run = resp_id r) (responseRuns d)))"
    and "stats = hd stats # stats'"
    by (auto split: list.splits sum.splits)
  with Cons.IH [of stats'] show ?case
    by (metis list.simps(9))
qed

lemma processPairs_average:
  assumes "processPairs env n nQ ps (vars, st) = (Inr vars', st')"
    and "averageSynced vars st \<or> filter (\<lambda>p. pairKey (snd p) \<notin> completedPairs vars) ps \<noteq> []"
  shows "averageSynced vars' st'"
  using assms
proof (induction ps arbitrary: vars st)
  case Nil
  then show ?case by simp
next
  case (Cons p ps)
  obtain idx q v where p: "p = (idx, q, v)" by (cases p) auto
  show ?case
  proof (cases "variantKey (question_id q) v \<in> completedPairs vars")
    case True
    with Cons.prems p have "processPairs env n nQ ps (vars, st) = (Inr vars', st')"
      and "averageSynced vars st \<or> filter (\<lambda>p. pairKey (snd p) \<notin> completedPairs vars) ps \<noteq> []"
      by (simp_all add: pairKey_def)
    then show ?thesis by (rule Cons.IH)
  next
    case False
    obtain r1 st1 where pv: "processVariant env n nQ idx q v (vars, st) = (r1, st1)"
      by (cases "processVariant env n nQ idx q v (vars, st)") auto
    with Cons.prems(1) p False obtain vars1 where r1: "r1 = Inr vars1"
      by (cases r1) auto
    with Cons.prems(1) p False pv have rest: "processPairs env n nQ ps (vars1, st1) = (Inr vars', st')"
      by simp
    have "averageSynced vars1 st1"
      using processVariant_Inr(12) [OF pv [unfolded r1]] by (simp add: averageSynced_def)
    then have "averageSynced vars1 st1 \<or> filter (\<lambda>p. pairKey (snd p) \<notin> completedPairs vars1) ps \<noteq> []"
      by simp
    with rest show ?thesis by (rule Cons.IH)
  qed
qed

lemma example_currentScore:
  "currentScore [\<lparr>mean_score = 85, stat_max_score = 100, stat_pillar_id = 1, stat_cv = 0\<rparr>,
                 \<lparr>mean_score = 40, stat_max_score = 50, stat_pillar_id = 1, stat_cv = 0\<rparr>] * 100
     = 250 / 3"
  by (simp add: currentScore_def)

lemma example_toFixed: "toFixed 2 (250 / 3) = 8333 / 100"
proof -
  have "\<lfloor>(250 / 3 :: real) * 10\<^sup>2 + 1 / 2\<rfloor> = 8333"
    by (simp add: floor_eq_iff)
  then show ?thesis by (simp add: toFixed_def)
qed
lemma processVariant_progress:
  assumes "processVariant env n nQ idx q v (vars, st) = (Inr vars', st')"
  shows "\<exists>report. progress st' = progress st @ [report]
           \<and> prog_averageScore report = currentScore (allResponseStats vars') * 100
           \<and> prog_responsesCompleted report = completedVariants vars'"
proof -
  let ?runs = "trialRuns env n q v"
  have rt: "fst (runTrials env n q v (questionTextOf q v) (getRubricForVariant q v)) = Inr ?runs"
    by (rule processVariant_Inr_runs [OF assms])
  have "?runs \<noteq> []"
    using processVariant_Inr(1) [OF assms] length_trialRuns [of env n q v] by (cases ?runs) auto
  then obtain run0 rest where r: "?runs = run0 # rest" by (cases ?runs) auto
  show ?thesis
    using assms rt unfolding r
    by (auto simp: processVariant_def Let_def case_prod_beta questionTextOf_def)
qed

lemma finishRun_rows:
  assumes "finishRun env n nQ vars st = (Inr result, st')"
  shows "runRowsOf (evalRunId vars) (db st')
       = map (\<lambda>row. row\<lparr>er_status := Completed,
                         er_completedAt := Some (date_now env (completedVariants vars))\<rparr>)
           (runRowsOf (evalRunId vars) (db st))"
proof -
  from finishRun_result [of env n nQ vars st] assms
  have ev: "evaluationRuns (db st') =
          map (\<lambda>row. if er_id row = evalRunId vars
                     then row\<lparr>er_status := Completed,
                              er_completedAt := Some (date_now env (completedVariants vars))\<rparr>
                     else row) (evaluationRuns (db st))"
    by auto
  have "runRowsOf (evalRunId vars) (db st') =
          map (\<lambda>row. if er_id row = evalRunId vars
                     then row\<lparr>er_status := Completed,
                              er_completedAt := Some (date_now env (completedVariants vars))\<rparr>
                     else row) (runRowsOf (evalRunId vars) (db st))"
    unfolding runRowsOf_def ev by (rule filter_map_er_id) simp
  also have "\<dots> = map (\<lambda>row. row\<lparr>er_status := Completed,
                         er_completedAt := Some (date_now env (completedVariants vars))\<rparr>)
           (runRowsOf (evalRunId vars) (db st))"
    by (rule map_cong) (simp_all add: runRowsOf_def)
  finally show ?thesis .
qed

text \<open>The running average at the end of a resumed run that processed at least one pair.\<close>

lemma runEvaluation_resumed_average:
  assumes rows: "runRowsOf rid (db st) = run # others"
    and status: "er_status run \<noteq> Completed"
    and sr: "startRun env config questions (Some rid) st = (Inr vars0, st0)"
    and res: "runEvaluation env config n questions (Some rid) st = (Inr result, st')"
    and pend: "pendingPairs (storedKeys rid (db st)) questions \<noteq> []"
  shows "list_all (\<lambda>row. er_averageScore row =
            Some (toFixed 2 (currentScore
              (allResponseStats vars0 @
               map (\<lambda>p. pairStat (fst p) (trialRuns env n (fst p) (snd p)))
                 (pendingPairs (storedKeys rid (db st)) questions)) * 100)))
           (runRowsOf rid (db st'))"
proof -
  note s = startRun_resume [OF rows status sr]
  obtain vars1 st1 where
    pq: "processPairs env n (length questions) (indexedPairs 0 questions) (vars0, st) = (Inr vars1, st1)"
    and fr: "finishRun env n (length questions) vars1 st1 = (Inr result, st')"
    using res sr s(1)
    by (auto simp: runEvaluation_def processQuestions_flat split: prod.splits sum.splits)
  let ?pend = "filter (\<lambda>p. pairKey (snd p) \<notin> storedKeys rid (db st)) (indexedPairs 0 questions)"
  have mp: "map snd ?pend = pendingPairs (storedKeys rid (db st)) questions"
    by (rule filter_indexedPairs)
  with pend have ne: "?pend \<noteq> []" by auto
  note l = processPairs_Inr [OF pq, unfolded s(4)]
  from l have rid1: "evalRunId vars1 = rid" by (simp add: s(2))
  from l have "allResponseStats vars1 = allResponseStats vars0 @
       map (\<lambda>p. pairStat (fst (snd p)) (trialRuns env n (fst (snd p)) (snd (snd p)))) ?pend"
    by blast
  also have "map (\<lambda>p. pairStat (fst (snd p)) (trialRuns env n (fst (snd p)) (snd (snd p)))) ?pend
      = map (\<lambda>p. pairStat (fst p) (trialRuns env n (fst p) (snd p))) (map snd ?pend)"
    by (simp add: comp_def)
  finally have ars: "allResponseStats vars1 = allResponseStats vars0 @
       map (\<lambda>p. pairStat (fst p) (trialRuns env n (fst p) (snd p)))
         (pendingPairs (storedKeys rid (db st)) questions)"
    unfolding mp .
  have "averageSynced vars1 st1"
    using ne by (intro processPairs_average [OF pq]) (simp add: s(4))
  then have a1: "list_all (\<lambda>row. er_averageScore row
        = Some (toFixed 2 (currentScore (allResponseStats vars1) * 100))) (runRowsOf rid (db st1))"
    by (simp add: averageSynced_def rid1)
  show ?thesis
    using a1 unfolding finishRun_rows [OF fr, unfolded rid1] ars
    by (simp add: list_all_iff)
qed

text \<open>
  Claim C6.  After a pair has been processed, the statistics collected are those collected
  before followed by the pair's (its mean over all trial scores, the maximal score of
  trial 1), the progress report carries the sum of the means divided by the sum of the
  maximal scores, times 100, and the run row stores this number written with two decimals,
  hence within 0.005 of it.  When a run is resumed, the statistics start with the stored
  mean of each stored response and the maximal score of its first stored run, and at the
  end of a resumed run that processed a pair the stored average is the one over the
  restored and the new pairs together.  For two pairs with mean 85 of 100 and mean 40 of 50
  the average is \<open>250 / 3\<close>, stored as \<open>83.33\<close>.
\<close>

theorem C6_running_average:
  "(processVariant env n nQ idx q v (vars, st) = (Inr vars', st')
      \<and> sum_list (map stat_max_score (allResponseStats vars')) \<noteq> 0 \<longrightarrow>
        allResponseStats vars' = allResponseStats vars @ [pairStat q (trialRuns env n q v)]
      \<and> mean_score (pairStat q (trialRuns env n q v))
          = sum_list (map trial_score (trialRuns env n q v)) / real n
      \<and> stat_max_score (pairStat q (trialRuns env n q v)) = maxScore (trialRuns env n q v ! 0)
      \<and> list_all (\<lambda>row. er_averageScore row =
            Some (toFixed 2 (sum_list (map mean_score (allResponseStats vars'))
                             / sum_list (map stat_max_score (allResponseStats vars')) * 100)))
           (runRowsOf (evalRunId vars) (db st'))
      \<and> \<bar>toFixed 2 (sum_list (map mean_score (allResponseStats vars'))
                      / sum_list (map stat_max_score (allResponseStats vars')) * 100)
          - sum_list (map mean_score (allResponseStats vars'))
              / sum_list (map stat_max_score (allResponseStats vars')) * 100\<bar> \<le> 1 / 200
      \<and> (\<exists>report. progress st' = progress st @ [report]
            \<and> prog_averageScore report
                = sum_list (map mean_score (allResponseStats vars'))
                    / sum_list (map stat_max_score (allResponseStats vars')) * 100))
   \<and> (runRowsOf rid (db st0) = run # others \<and> er_status run \<noteq> Completed
      \<and> startRun env config questions (Some rid) st0 = (Inr vars0, st1) \<longrightarrow>
        map mean_score (allResponseStats vars0)
          = map resp_meanScore (filter (\<lambda>r. resp_evaluationRunId r = rid) (responses (db st0)))
      \<and> map stat_max_score (allResponseStats vars0)
          = map (\<lambda>r. rr_maxScore (hd (filter (\<lambda>run. rr_responseId run = resp_id r)
                                          (responseRuns (db st0)))))
              (filter (\<lambda>r. resp_evaluationRunId r = rid) (responses (db st0)))
      \<and> (runEvaluation env config n questions (Some rid) st0 = (Inr result, st2)
           \<and> pendingPairs (storedKeys rid (db st0)) questions \<noteq> [] \<longrightarrow>
          list_all (\<lambda>row. er_averageScore row =
              Some (toFixed 2 (currentScore
                (allResponseStats vars0 @
                 map (\<lambda>p. pairStat (fst p) (trialRuns env n (fst p) (snd p)))
                   (pendingPairs (storedKeys rid (db st0)) questions)) * 100)))
            (runRowsOf rid (db st2))))
   \<and> currentScore [\<lparr>mean_score = 85, stat_max_score = 100, stat_pillar_id = 1, stat_cv = 0\<rparr>,
                    \<lparr>mean_score = 40, stat_max_score = 50, stat_pillar_id = 1, stat_cv = 0\<rparr>] * 100
        = 250 / 3
   \<and> toFixed 2 (250 / 3) = 8333 / 100
   \<and> \<bar>(250 / 3 :: real) - 83.3\<bar> < 0.05"
proof (intro conjI impI)
  assume a: "processVariant env n nQ idx q v (vars, st) = (Inr vars', st')
      \<and> sum_list (map stat_max_score (allResponseStats vars')) \<noteq> 0"
  then have pv: "processVariant env n nQ idx q v (vars, st) = (Inr vars', st')" by blast
  note step = processVariant_Inr [OF pv]
  let ?runs = "trialRuns env n q v"
  have ne: "?runs \<noteq> []"
    using step(1) length_trialRuns [of env n q v] by (cases ?runs) auto
  show "allResponseStats vars' = allResponseStats vars @ [pairStat q ?runs]" by (rule step(4))
  show "mean_score (pairStat q ?runs) = sum_list (map trial_score ?runs) / real n"
    using ne metrics_nonempty(1) [of "map trial_score ?runs"]
    by (simp add: pairStat_def length_trialRuns)
  show "stat_max_score (pairStat q ?runs) = maxScore (?runs ! 0)"
    using ne by (simp add: pairStat_def hd_conv_nth)
  show "list_all (\<lambda>row. er_averageScore row =
            Some (toFixed 2 (sum_list (map mean_score (allResponseStats vars'))
                             / sum_list (map stat_max_score (allResponseStats vars')) * 100)))
           (runRowsOf (evalRunId vars) (db st'))"
    using step(12) by (simp add: step(6) currentScore_sum)
  show "\<bar>toFixed 2 (sum_list (map mean_score (allResponseStats vars'))
                      / sum_list (map stat_max_score (allResponseStats vars')) * 100)
          - sum_list (map mean_score (allResponseStats vars'))
              / sum_list (map stat_max_score (allResponseStats vars')) * 100\<bar> \<le> 1 / 200"
    using toFixed_error [of 2 "sum_list (map mean_score (allResponseStats vars'))
              / sum_list (map stat_max_score (allResponseStats vars')) * 100"]
    by simp
  show "\<exists>report. progress st' = progress st @ [report]
            \<and> prog_averageScore report
                = sum_list (map mean_score (allResponseStats vars'))
                    / sum_list (map stat_max_score (allResponseStats vars')) * 100"
    using processVariant_progress [OF pv] by (auto simp: currentScore_sum)
next
  assume b: "runRowsOf rid (db st0) = run # others \<and> er_status run \<noteq> Completed
      \<and> startRun env config questions (Some rid) st0 = (Inr vars0, st1)"
  then have rows: "runRowsOf rid (db st0) = run # others" and status: "er_status run \<noteq> Completed"
    and sr: "startRun env config questions (Some rid) st0 = (Inr vars0, st1)"
    by blast+
  note f = loadStats_fields [OF startRun_resume(5) [OF rows status sr]]
  show "map mean_score (allResponseStats vars0)
          = map resp_meanScore (filter (\<lambda>r. resp_evaluationRunId r = rid) (responses (db st0)))"
    using f by blast
  show "map stat_max_score (allResponseStats vars0)
          = map (\<lambda>r. rr_maxScore (hd (filter (\<lambda>run. rr_responseId run = resp_id r)
                                          (responseRuns (db st0)))))
              (filter (\<lambda>r. resp_evaluationRunId r = rid) (responses (db st0)))"
    using f by blast
  assume c: "runEvaluation env config n questions (Some rid) st0 = (Inr result, st2)
           \<and> pendingPairs (storedKeys rid (db st0)) questions \<noteq> []"
  then show "list_all (\<lambda>row. er_averageScore row =
              Some (toFixed 2 (currentScore
                (allResponseStats vars0 @
                 map (\<lambda>p. pairStat (fst p) (trialRuns env n (fst p) (snd p)))
                   (pendingPairs (storedKeys rid (db st0)) questions)) * 100)))
            (runRowsOf rid (db st2))"
    using runEvaluation_resumed_average [OF rows status sr] by blast
next
  show "currentScore [\<lparr>mean_score = 85, stat_max_score = 100, stat_pillar_id = 1, stat_cv = 0\<rparr>,
                    \<lparr>mean_score = 40, stat_max_score = 50, stat_pillar_id = 1, stat_cv = 0\<rparr>] * 100
        = 250 / 3"
    by (rule example_currentScore)
  show "toFixed 2 (250 / 3) = 8333 / 100" by (rule example_toFixed)
  show "\<bar>(250 / 3 :: real) - 83.3\<bar> < 0.05" by simp
qed
lemma example_trialRuns1:
  "trialRuns exampleEnv 1 exampleQuestion Implicit
     = [\<lparr>responseText = ''answer'', trial_score = 40, maxScore = 50, judgeReasoning = ''fair''\<rparr>]"
  by (simp add: trialRuns_def trialOutcome_def runTrial_def exampleEnv_def Let_def)

lemma example_pairStat:
  "pairStat exampleQuestion (trialRuns exampleEnv 1 exampleQuestion Implicit)
     = \<lparr>mean_score = 40, stat_max_score = 50, stat_pillar_id = 1, stat_cv = 0\<rparr>"
proof -
  have pid: "pillar_id exampleQuestion = 1" by (simp add: exampleQuestion_def)
  show ?thesis
    unfolding pairStat_def example_trialRuns1 by (simp add: metrics_single pid)
qed

lemma example_startRun:
  "startRun exampleEnv exampleConfig [exampleQuestion] (Some 7) (exampleState Running)
     = (Inr exampleVars, exampleState Running)"
proof -
  have lp: "loadPartialEvaluation (db (exampleState Running)) 7
      = Inr (exampleRun Running, responses (db (exampleState Running)))"
    by (simp add: loadPartialEvaluation_rows example_rows example_status)
       (simp add: exampleState_def)
  have ls: "loadStats (db (exampleState Running)) [exampleQuestion] (responses (db (exampleState Running)))
      = Inr [\<lparr>mean_score = 85, stat_max_score = 100, stat_pillar_id = 1, stat_cv = 0\<rparr>]"
    by (simp add: exampleState_def exampleQuestion_def)
  show ?thesis
    unfolding startRun_def
    by (simp add: lp ls) (simp add: exampleVars_def exampleRun_def exampleState_def)
qed

theorem C6_running_average_witness:
  "(\<exists>vars' st'.
      processVariant exampleEnv 1 1 0 exampleQuestion Implicit (exampleVars, exampleState Running)
        = (Inr vars', st')
    \<and> map mean_score (allResponseStats vars') = [85, 40]
    \<and> map stat_max_score (allResponseStats vars') = [100, 50]
    \<and> length (runRowsOf 7 (db st')) = 1
    \<and> list_all (\<lambda>row. er_averageScore row = Some (8333 / 100)) (runRowsOf 7 (db st')))
   \<and> (\<exists>result st2.
        runEvaluation exampleEnv exampleConfig 1 [exampleQuestion] (Some 7) (exampleState Running)
          = (Inr result, st2)
      \<and> list_all (\<lambda>row. er_averageScore row = Some (8333 / 100)) (runRowsOf 7 (db st2)))"
proof -
  obtain vars' st' where pv:
    "processVariant exampleEnv 1 1 0 exampleQuestion Implicit (exampleVars, exampleState Running)
      = (Inr vars', st')"
    using example_trials processVariant_succeeds [of 1 exampleEnv exampleQuestion Implicit 1 0
        exampleVars "exampleState Running"]
    by auto
  have ars: "allResponseStats vars'
      = [\<lparr>mean_score = 85, stat_max_score = 100, stat_pillar_id = 1, stat_cv = 0\<rparr>,
         \<lparr>mean_score = 40, stat_max_score = 50, stat_pillar_id = 1, stat_cv = 0\<rparr>]"
    using processVariant_Inr(4) [OF pv] unfolding example_pairStat by (simp add: exampleVars_def)
  have rid: "evalRunId exampleVars = 7" by (simp add: exampleVars_def)
  have len: "length (runRowsOf 7 (db st')) = 1"
    using runRowsOf_cong(1) [OF processVariant_Inr(9,10) [OF pv], of 7] by (simp add: example_rows)
  have s: "sum_list (map stat_max_score (allResponseStats vars')) \<noteq> 0" by (simp add: ars)
  have q: "(125 / 150 * 100 :: real) = 250 / 3" by simp
  from C6_running_average [of exampleEnv 1 1 0 exampleQuestion Implicit exampleVars
      "exampleState Running" vars' st'] pv s
  have "list_all (\<lambda>row. er_averageScore row =
            Some (toFixed 2 (sum_list (map mean_score (allResponseStats vars'))
                             / sum_list (map stat_max_score (allResponseStats vars')) * 100)))
           (runRowsOf (evalRunId exampleVars) (db st'))"
    and tf: "toFixed 2 (250 / 3) = 8333 / 100"
    by blast+
  then have avg: "list_all (\<lambda>row. er_averageScore row = Some (8333 / 100)) (runRowsOf 7 (db st'))"
    by (simp add: ars rid q)
  obtain result st2 where r:
    "runEvaluation exampleEnv exampleConfig 1 [exampleQuestion] (Some 7) (exampleState Running)
      = (Inr result, st2)"
    using example_resume_succeeds by blast
  have cs: "currentScore (allResponseStats exampleVars @
        map (\<lambda>p. pairStat (fst p) (trialRuns exampleEnv 1 (fst p) (snd p)))
          (pendingPairs (storedKeys 7 (db (exampleState Running))) [exampleQuestion])) * 100 = 250 / 3"
  proof -
    have m: "map (\<lambda>p. pairStat (fst p) (trialRuns exampleEnv 1 (fst p) (snd p)))
          [(exampleQuestion, Implicit)]
        = [\<lparr>mean_score = 40, stat_max_score = 50, stat_pillar_id = 1, stat_cv = 0\<rparr>]"
      using example_pairStat by simp
    show ?thesis
      unfolding example_pending m by (simp add: exampleVars_def currentScore_def)
  qed
  from C6_running_average [of exampleEnv 1 _ _ _ _ _ _ _ _ 7 "exampleState Running"
      "exampleRun Running" "[]" exampleConfig "[exampleQuestion]" exampleVars
      "exampleState Running" result st2]
    example_rows [of Running] example_startRun r
  have "list_all (\<lambda>row. er_averageScore row =
              Some (toFixed 2 (currentScore
                (allResponseStats exampleVars @
                 map (\<lambda>p. pairStat (fst p) (trialRuns exampleEnv 1 (fst p) (snd p)))
                   (pendingPairs (storedKeys 7 (db (exampleState Running))) [exampleQuestion])) * 100)))
            (runRowsOf 7 (db st2))"
    by (simp add: example_status example_pending)
  then have "list_all (\<lambda>row. er_averageScore row = Some (8333 / 100)) (runRowsOf 7 (db st2))"
    unfolding cs tf .
  with r pv ars len avg show ?thesis by auto
qed

section \<open>Rate limiter: proofs\<close>

text \<open>
  Claim C1.  The claim is that no window of 60 seconds sees more than the limit of
  invocations for a provider, for any number of concurrent callers.  The code does not
  achieve this.  With the limit 5 of the Magisterium client, seven callers that call at the
  same time are served as follows: the first starts at once; each of the other six finds
  one request in the history, waits for the spacing of 12 seconds, and all six start
  together at time 12000, so that seven invocations start within 12 seconds.  With three
  callers at time 0 and three more at time 20000, six invocations start within 24 seconds.
  In both runs no call is left suspended.
\<close>

theorem C1_throttle_concurrent_callers:
  "map_option (startTimes ''magisterium'') (runSchedule burstSchedule initialLimiter)
     = Some [0, 12000, 12000, 12000, 12000, 12000, 12000]
   \<and> map_option (startsInWindow ''magisterium'' 12000) (runSchedule burstSchedule initialLimiter)
     = Some 7
   \<and> map_option suspended (runSchedule burstSchedule initialLimiter) = Some []
   \<and> map_option (startTimes ''magisterium'') (runSchedule pairsSchedule initialLimiter)
     = Some [0, 12000, 12000, 24000, 24000, 24000]
   \<and> map_option (startsInWindow ''magisterium'' 24000) (runSchedule pairsSchedule initialLimiter)
     = Some 6
   \<and> map_option suspended (runSchedule pairsSchedule initialLimiter) = Some []"
  by code_simp

end
